theory Spec2Isabelle
  imports Main "HOL-Library.Word" "HOL-Library.Sublist"
begin

section \<open>Bytes, C strings and status codes\<close>

text \<open>
  A C \<open>char\<close> and a \<open>uint8_t\<close> are both modelled by the 8-bit type \<^typ>\<open>char\<close>; a buffer
  is a \<^typ>\<open>string\<close>. A \<open>const char *\<close> that the code reads as a NUL-terminated string
  is read through \<open>c_str\<close>: the bytes before the first NUL.
\<close>

type_synonym byte = char

definition NUL :: byte where
  "NUL = CHR 0x00"

definition NEWLINE :: byte where
  "NEWLINE = CHR 0x0A"

definition c_str :: "string \<Rightarrow> string" where
  "c_str buf = takeWhile (\<lambda>c. c \<noteq> NUL) buf"

text \<open>status.h: the four status codes every function returns.\<close>

datatype rc = OS_OK | OS_ERROR | OS_AGAIN | OS_SHUTDOWN

section \<open>Keyword scan (docutil.c)\<close>

definition BUF_SZ :: nat where
  "BUF_SZ = 8192"

text \<open>The locals of \<open>doc_count_keyword\<close>: \<open>match\<close>, \<open>matched_line\<close> and \<open>*out\<close>.\<close>

record scan_state =
  s_match :: nat
  s_matched_line :: bool
  s_out :: nat

datatype scan_result = Running scan_state | Returned nat

text \<open>\<open>kw[i]\<close> for the keyword's bytes \<open>kw\<close>: the byte at index \<open>strlen(kw)\<close> is the terminator.\<close>

definition kw_at :: "string \<Rightarrow> nat \<Rightarrow> byte" where
  "kw_at kw i = (if i < length kw then kw ! i else NUL)"

text \<open>Lines 138-141: the newline bookkeeping at the end of one iteration.\<close>

definition end_of_byte :: "byte \<Rightarrow> scan_state \<Rightarrow> scan_state" where
  "end_of_byte c st =
     (if c = NEWLINE
      then st\<lparr>s_out := (if s_matched_line st then s_out st + 1 else s_out st),
              s_matched_line := False\<rparr>
      else st)"

text \<open>Lines 119-142: the \<open>for\<close> loop over one buffer that \<open>read\<close> filled.\<close>

fun scan_buf :: "string \<Rightarrow> bool \<Rightarrow> scan_state \<Rightarrow> string \<Rightarrow> scan_result" where
  "scan_buf kw stop_at_first st [] = Running st"
| "scan_buf kw stop_at_first st (c # cs) =
     (if c = kw_at kw (s_match st) then
        (if Suc (s_match st) = length kw then
           (if stop_at_first then Returned 1
            else scan_buf kw stop_at_first
                   (end_of_byte c (st\<lparr>s_match := 0, s_matched_line := True\<rparr>)) cs)
         else scan_buf kw stop_at_first
                (end_of_byte c (st\<lparr>s_match := Suc (s_match st)\<rparr>)) cs)
      else scan_buf kw stop_at_first
             (end_of_byte c (st\<lparr>s_match := (if c = kw_at kw 0 then 1 else 0)\<rparr>)) cs)"

text \<open>
  Lines 117-143: the \<open>while\<close> loop. Each \<open>read\<close> hands over the next at most
  \<open>BUF_SZ\<close> bytes of the file; the loop ends when \<open>read\<close> returns 0.
\<close>

function read_loop :: "string \<Rightarrow> bool \<Rightarrow> scan_state \<Rightarrow> string \<Rightarrow> scan_result" where
  "read_loop kw stop_at_first st data =
     (if take BUF_SZ data = [] then Running st
      else (case scan_buf kw stop_at_first st (take BUF_SZ data) of
              Returned n \<Rightarrow> Returned n
            | Running st' \<Rightarrow> read_loop kw stop_at_first st' (drop BUF_SZ data)))"
  by pat_completeness auto
termination
  by (relation "measure (\<lambda>(kw, sf, st, data). length data)") (auto simp: BUF_SZ_def)

declare read_loop.simps [simp del]

text \<open>
  \<open>doc_count_keyword\<close>: the file system is a map from a path to the file's bytes
  (\<open>None\<close>: \<open>open\<close> fails); \<open>kw\<close> is read as a C string, \<open>read\<close> is taken not to
  fail. The result is the return code and \<open>*out\<close>.
\<close>

type_synonym filesystem = "string \<Rightarrow> string option"

definition doc_count_keyword :: "filesystem \<Rightarrow> string \<Rightarrow> string \<Rightarrow> bool \<Rightarrow> rc \<times> nat" where
  "doc_count_keyword files path kw stop_at_first =
     (case files path of
        None \<Rightarrow> (OS_ERROR, 0)
      | Some data \<Rightarrow>
          if length (c_str kw) = 0 then (OS_OK, 0)
          else (case read_loop (c_str kw) stop_at_first
                       \<lparr>s_match = 0, s_matched_line = False, s_out = 0\<rparr> data of
                  Returned n \<Rightarrow> (OS_OK, n)
                | Running st \<Rightarrow>
                    (OS_OK, if s_match st > 0 \<and> s_matched_line st
                            then s_out st + 1 else s_out st)))"

text \<open>\<open>doc_contains_keyword\<close>: 1 if found, 0 if not, \<open>OS_ERROR\<close> (-1) on failure.\<close>

definition doc_contains_keyword :: "filesystem \<Rightarrow> string \<Rightarrow> string \<Rightarrow> int" where
  "doc_contains_keyword files path kw =
     (case doc_count_keyword files path kw True of
        (OS_OK, dummy) \<Rightarrow> int dummy
      | (_, _) \<Rightarrow> -1)"

section \<open>Wire protocol (protocol.h, protocol.c)\<close>

text \<open>
  Numeric header fields are words of their C width; raw payload bytes are \<^typ>\<open>byte\<close>s.
  The structs are packed and the target is little-endian.
\<close>

definition REQ_MAX :: nat where
  "REQ_MAX = 65535"

definition RSP_MAX :: nat where
  "RSP_MAX = 65535"

definition UINT16_MAX :: nat where
  "UINT16_MAX = 65535"

text \<open>\<open>sizeof(tlv_t)\<close>, \<open>sizeof(req_hdr_t)\<close> (with a 4-byte \<open>pid_t\<close>) and \<open>sizeof(rsp_hdr_t)\<close>.\<close>

definition TLV_HDR_SZ :: nat where
  "TLV_HDR_SZ = 3"

definition REQ_HDR_SZ :: nat where
  "REQ_HDR_SZ = 7"

definition RSP_HDR_SZ :: nat where
  "RSP_HDR_SZ = 4"

definition ARG_U32 :: "8 word" where
  "ARG_U32 = 0"

definition ARG_STR :: "8 word" where
  "ARG_STR = 1"

definition ARG_COUNT :: nat where
  "ARG_COUNT = 2"

text \<open>
  \<open>request_t\<close> and \<open>response_t\<close>: the header fields and the payload array. The payload
  field holds the bytes of the array that are in use (a builder's \<open>used\<close> bytes, or the
  \<open>hdr.len - sizeof hdr\<close> bytes a receiver read).
\<close>

record request =
  req_len :: "16 word"
  req_opcode :: "8 word"
  req_pid :: int
  req_payload :: string

record response =
  rsp_len :: "16 word"
  rsp_opcode :: "8 word"
  rsp_status :: "8 word"
  rsp_payload :: string

text \<open>
  \<open>proto_builder_t\<close>: \<open>b_buf\<close> is the window \<open>buf[0 .. used)\<close> of the frame's payload
  that the builder points into.
\<close>

record proto_builder =
  b_buf :: string
  b_cap :: nat
  b_used :: nat

definition u8_byte :: "8 word \<Rightarrow> byte" where
  "u8_byte w = char_of (unat w)"

definition byte_u8 :: "byte \<Rightarrow> 8 word" where
  "byte_u8 c = word_of_nat (of_char c)"

definition u16_bytes :: "16 word \<Rightarrow> string" where
  "u16_bytes w = [char_of (unat w mod 256), char_of (unat w div 256)]"

definition bytes_u16 :: "byte \<Rightarrow> byte \<Rightarrow> 16 word" where
  "bytes_u16 lo hi = word_of_nat (of_char lo + 256 * of_char hi)"

text \<open>The packed \<open>tlv_t h = { .type = type, .len = (uint16_t)len }\<close> as three bytes.\<close>

definition tlv_hdr :: "8 word \<Rightarrow> nat \<Rightarrow> string" where
  "tlv_hdr type len = u8_byte type # u16_bytes (word_of_nat len)"

definition proto_rsp_init ::
  "8 word \<Rightarrow> 8 word \<Rightarrow> rc \<times> response \<times> proto_builder" where
  "proto_rsp_init op status =
     (OS_OK,
      \<lparr>rsp_len = 0, rsp_opcode = op, rsp_status = status, rsp_payload = []\<rparr>,
      \<lparr>b_buf = [], b_cap = RSP_MAX - RSP_HDR_SZ, b_used = 0\<rparr>)"

text \<open>\<open>proto_req_init\<close>; \<open>pid\<close> is what \<open>getpid\<close> returns.\<close>

definition proto_req_init :: "8 word \<Rightarrow> int \<Rightarrow> rc \<times> request \<times> proto_builder" where
  "proto_req_init op pid =
     (OS_OK,
      \<lparr>req_len = 0, req_opcode = op, req_pid = pid, req_payload = []\<rparr>,
      \<lparr>b_buf = [], b_cap = REQ_MAX - REQ_HDR_SZ, b_used = 0\<rparr>)"

text \<open>\<open>proto_add_tlv(b, type, val, len)\<close> with \<open>len\<close> the length of \<open>val\<close>.\<close>

definition proto_add_tlv :: "proto_builder \<Rightarrow> 8 word \<Rightarrow> string \<Rightarrow> rc \<times> proto_builder" where
  "proto_add_tlv b type val =
     (let len = length val in
      if len > UINT16_MAX then (OS_ERROR, b)
      else
        let need = TLV_HDR_SZ + len in
        if b_used b + need > b_cap b then (OS_ERROR, b)
        else (OS_OK, b\<lparr>b_buf := take (b_used b) (b_buf b) @ tlv_hdr type len @ val,
                        b_used := b_used b + need\<rparr>))"

definition check_cap :: "nat \<Rightarrow> nat \<Rightarrow> rc" where
  "check_cap sz cap = (if sz > cap then OS_ERROR else OS_OK)"

text \<open>
  \<open>proto_rsp_finish\<close> and \<open>proto_req_finish\<close>. The builder writes through a pointer
  into the frame's payload, so the payload holds the builder's bytes whether or not the
  length check passes.
\<close>

definition proto_rsp_finish :: "response \<Rightarrow> proto_builder \<Rightarrow> rc \<times> response" where
  "proto_rsp_finish rsp b =
     (let rsp' = rsp\<lparr>rsp_payload := b_buf b\<rparr>;
          sz = RSP_HDR_SZ + b_used b in
      if check_cap sz RSP_MAX = OS_ERROR then (OS_ERROR, rsp')
      else (OS_OK, rsp'\<lparr>rsp_len := word_of_nat sz\<rparr>))"

definition proto_req_finish :: "request \<Rightarrow> proto_builder \<Rightarrow> rc \<times> request" where
  "proto_req_finish req b =
     (let req' = req\<lparr>req_payload := b_buf b\<rparr>;
          sz = REQ_HDR_SZ + b_used b in
      if check_cap sz REQ_MAX = OS_ERROR then (OS_ERROR, req')
      else (OS_OK, req'\<lparr>req_len := word_of_nat sz\<rparr>))"

text \<open>
  \<open>proto_cursor_t\<close>: \<open>c_cur\<close> and \<open>c_end\<close> are offsets into the buffer \<open>c_buf\<close> the
  cursor was initialised over.
\<close>

record proto_cursor =
  c_buf :: string
  c_cur :: nat
  c_end :: nat

definition proto_cursor_init :: "string \<Rightarrow> nat \<Rightarrow> proto_cursor" where
  "proto_cursor_init buf len = \<lparr>c_buf = buf, c_cur = 0, c_end = len\<rparr>"

text \<open>A byte of the frame; the frame structs are zeroed past the bytes in use.\<close>

definition byte_at :: "string \<Rightarrow> nat \<Rightarrow> byte" where
  "byte_at buf i = (if i < length buf then buf ! i else NUL)"

text \<open>
  The three results of \<open>proto_cursor_next\<close>: \<open>OS_AGAIN\<close> with the type, value, length
  and the advanced cursor; \<open>OS_OK\<close> (no more TLVs); \<open>OS_ERROR\<close> (corrupt).
\<close>

datatype cursor_step =
  Next_AGAIN "8 word" string "16 word" proto_cursor
| Next_OK
| Next_ERROR

definition proto_cursor_next :: "proto_cursor \<Rightarrow> cursor_step" where
  "proto_cursor_next c =
     (if c_cur c + TLV_HDR_SZ > c_end c then Next_OK
      else
        let t = byte_u8 (byte_at (c_buf c) (c_cur c));
            l = bytes_u16 (byte_at (c_buf c) (c_cur c + 1)) (byte_at (c_buf c) (c_cur c + 2));
            need = TLV_HDR_SZ + unat l in
        if c_cur c + need > c_end c then Next_ERROR
        else Next_AGAIN t (take (unat l) (drop (c_cur c + TLV_HDR_SZ) (c_buf c))) l
               (c\<lparr>c_cur := c_cur c + need\<rparr>))"

text \<open>Stepping a cursor until it stops: the TLVs it yields and how it ends.\<close>

datatype cursor_stop = End | Corrupt

function cursor_all :: "proto_cursor \<Rightarrow> (8 word \<times> string \<times> 16 word) list \<times> cursor_stop" where
  "cursor_all c =
     (case proto_cursor_next c of
        Next_OK \<Rightarrow> ([], End)
      | Next_ERROR \<Rightarrow> ([], Corrupt)
      | Next_AGAIN t v l c' \<Rightarrow>
          (case cursor_all c' of (tlvs, stop) \<Rightarrow> ((t, v, l) # tlvs, stop)))"
  by pat_completeness auto
termination
  by (relation "measure (\<lambda>c. c_end c - c_cur c)")
     (auto simp: proto_cursor_next_def Let_def TLV_HDR_SZ_def split: if_splits)

declare cursor_all.simps [simp del]

definition proto_build_simple_rsp :: "8 word \<Rightarrow> string \<Rightarrow> response" where
  "proto_build_simple_rsp op msg =
     (case proto_rsp_init op 0 of
        (_, rsp, b) \<Rightarrow>
          (case proto_add_tlv b ARG_STR (c_str msg) of
             (_, b') \<Rightarrow> snd (proto_rsp_finish rsp b')))"

text \<open>
  \<open>proto_arg_first_str(req, dst, cap)\<close>: the return code and the bytes copied into
  \<open>dst\<close> (without the terminator the code appends).
\<close>

definition proto_arg_first_str :: "request \<Rightarrow> nat \<Rightarrow> rc \<times> string" where
  "proto_arg_first_str req cap =
     (case proto_cursor_next
             (proto_cursor_init (req_payload req) (unat (req_len req) - REQ_HDR_SZ)) of
        Next_AGAIN t v l _ \<Rightarrow>
          if t \<noteq> ARG_STR \<or> l = 0 \<or> unat l \<ge> cap then (OS_ERROR, [])
          else (OS_OK, v)
      | _ \<Rightarrow> (OS_ERROR, []))"

text \<open>
  A sequence of \<open>proto_add_tlv\<close> calls on one builder, stopping at the first call that
  fails, and a whole response built from such a sequence: init, the adds, finish.
\<close>

fun add_tlvs :: "proto_builder \<Rightarrow> (8 word \<times> string) list \<Rightarrow> rc \<times> proto_builder" where
  "add_tlvs b [] = (OS_OK, b)"
| "add_tlvs b ((t, v) # tlvs) =
     (case proto_add_tlv b t v of
        (OS_OK, b') \<Rightarrow> add_tlvs b' tlvs
      | (e, b') \<Rightarrow> (e, b'))"

text \<open>The bytes a list of TLVs needs: \<open>3 + len\<close> each.\<close>

definition tlvs_size :: "(8 word \<times> string) list \<Rightarrow> nat" where
  "tlvs_size tlvs = (\<Sum>(t, v)\<leftarrow>tlvs. 3 + length v)"

definition build_rsp :: "8 word \<Rightarrow> 8 word \<Rightarrow> (8 word \<times> string) list \<Rightarrow> rc \<times> response" where
  "build_rsp op status tlvs =
     (case proto_rsp_init op status of
        (_, rsp, b) \<Rightarrow>
          (case add_tlvs b tlvs of
             (OS_OK, b') \<Rightarrow> proto_rsp_finish rsp b'
           | (e, b') \<Rightarrow> (e, rsp\<lparr>rsp_payload := b_buf b'\<rparr>)))"

definition build_req :: "8 word \<Rightarrow> int \<Rightarrow> (8 word \<times> string) list \<Rightarrow> rc \<times> request" where
  "build_req op pid tlvs =
     (case proto_req_init op pid of
        (_, req, b) \<Rightarrow>
          (case add_tlvs b tlvs of
             (OS_OK, b') \<Rightarrow> proto_req_finish req b'
           | (e, b') \<Rightarrow> (e, req\<lparr>req_payload := b_buf b'\<rparr>)))"

text \<open>The wire image of a list of TLVs.\<close>

definition tlv_bytes :: "(8 word \<times> string) list \<Rightarrow> string" where
  "tlv_bytes tlvs = concat (map (\<lambda>(t, v). tlv_hdr t (length v) @ v) tlvs)"

section \<open>Document store (document.h, storage.c)\<close>

text \<open>
  \<open>document_t\<close>. The three character arrays are held as the bytes that were copied
  into them ahead of the terminator; \<open>key\<close> is a C \<open>int\<close>, kept as an \<^typ>\<open>int\<close> with
  every conversion to it written out by \<open>int_cast\<close>.
\<close>

record document =
  d_key :: int
  d_title :: string
  d_authors :: string
  d_path :: string
  d_year :: "32 word"

text \<open>\<open>(int)x\<close> for a non-negative \<open>x\<close>: the low 32 bits, read as two's complement.\<close>

definition int_cast :: "nat \<Rightarrow> int" where
  "int_cast n = sint (word_of_nat n :: 32 word)"

text \<open>\<open>sizeof(document_t)\<close>: 4 + 200 + 200 + 64 + 4.\<close>

definition DOC_SZ :: nat where
  "DOC_SZ = 472"

text \<open>
  The storage file is a sequence of whole records, so its length in bytes
  (\<open>end_off\<close>) is \<open>DOC_SZ\<close> times the length of the list. The file is taken to be open
  and \<open>lseek\<close>, \<open>read\<close> and \<open>write\<close> to succeed.
\<close>

type_synonym store = "document list"

definition end_off :: "store \<Rightarrow> nat" where
  "end_off st = length st * DOC_SZ"

definition get_offset :: "int \<Rightarrow> nat" where
  "get_offset key = nat key * DOC_SZ"

text \<open>\<open>stg_add_doc\<close>: the key returned and the file after the write.\<close>

definition stg_add_doc :: "store \<Rightarrow> document \<Rightarrow> int \<times> store" where
  "stg_add_doc st doc =
     (let key = int_cast (end_off st div DOC_SZ) in
      (key, st @ [doc\<lparr>d_key := key\<rparr>]))"

text \<open>\<open>stg_get_doc\<close>: the return code and what \<open>*out\<close> holds if it was written.\<close>

definition stg_get_doc :: "store \<Rightarrow> int \<Rightarrow> rc \<times> document option" where
  "stg_get_doc st key =
     (if key < 0 then (OS_ERROR, None)
      else if get_offset key + DOC_SZ > end_off st then (OS_ERROR, None)
      else
        let out = st ! nat key in
        if d_key out \<noteq> key then (OS_ERROR, Some out)
        else (OS_OK, Some out))"

text \<open>The tombstone: a zeroed record with key -1.\<close>

definition tomb :: document where
  "tomb = \<lparr>d_key = -1, d_title = [], d_authors = [], d_path = [], d_year = 0\<rparr>"

definition stg_del_doc :: "store \<Rightarrow> int \<Rightarrow> rc \<times> store" where
  "stg_del_doc st key =
     (if key < 0 then (OS_ERROR, st)
      else if get_offset key + DOC_SZ > end_off st then (OS_ERROR, st)
      else
        let cur = st ! nat key in
        if d_key cur \<noteq> key then (OS_ERROR, st)
        else (OS_OK, st[nat key := tomb]))"

definition stg_total :: "store \<Rightarrow> int" where
  "stg_total st = int_cast (end_off st div DOC_SZ)"

text \<open>Successive \<open>stg_add_doc\<close> calls: the keys returned, in order, and the final file.\<close>

fun add_docs :: "store \<Rightarrow> document list \<Rightarrow> int list \<times> store" where
  "add_docs st [] = ([], st)"
| "add_docs st (d # ds) =
     (case stg_add_doc st d of
        (key, st') \<Rightarrow> (case add_docs st' ds of (keys, st'') \<Rightarrow> (key # keys, st'')))"

text \<open>The document of the end-to-end scenarios: \<open>-a "T" "A" 2020 "f.txt"\<close>.\<close>

definition doc_T :: document where
  "doc_T = \<lparr>d_key = 0, d_title = ''T'', d_authors = ''A'', d_path = ''f.txt'', d_year = 2020\<rparr>"

section \<open>Response cache (cache_lru.c)\<close>

definition MAX_KEY_LEN :: nat where
  "MAX_KEY_LEN = 255"

text \<open>\<open>entry_t\<close> without its links: the owned key and the cached response.\<close>

record entry =
  e_key :: string
  e_rsp :: response

text \<open>
  The module's state. \<open>c_list\<close> is the doubly-linked list read from \<open>head\<close> to
  \<open>tail\<close> (the most recently used entry first); the hash table \<open>ht\<close> is the index of
  the list's nodes by key, so a lookup is the position of the node with that key.
\<close>

record cache =
  c_list :: "entry list"
  c_cap :: nat
  c_count :: nat

fun ht_lookup :: "entry list \<Rightarrow> string \<Rightarrow> nat option" where
  "ht_lookup [] key = None"
| "ht_lookup (e # es) key =
     (if e_key e = key then Some 0 else map_option Suc (ht_lookup es key))"

text \<open>\<open>move_front\<close> of the node at position \<open>i\<close>: nothing to do for the head.\<close>

definition move_front :: "entry list \<Rightarrow> nat \<Rightarrow> entry list" where
  "move_front es i = (if i = 0 then es else es ! i # take i es @ drop (Suc i) es)"

function evict :: "cache \<Rightarrow> cache" where
  "evict c =
     (if c_cap c \<noteq> 0 \<and> c_count c > c_cap c \<and> c_list c \<noteq> []
      then evict (c\<lparr>c_list := butlast (c_list c), c_count := c_count c - 1\<rparr>)
      else c)"
  by pat_completeness auto
termination
  by (relation "measure (\<lambda>c. length (c_list c))") auto

declare evict.simps [simp del]

text \<open>Little-endian 32-bit values, for the entry count of the persistence file.\<close>

definition u32_bytes :: "32 word \<Rightarrow> string" where
  "u32_bytes w =
     [char_of (unat w mod 256), char_of (unat w div 256 mod 256),
      char_of (unat w div 65536 mod 256), char_of (unat w div 16777216)]"

definition bytes_u32 :: "string \<Rightarrow> 32 word" where
  "bytes_u32 bs =
     word_of_nat (of_char (byte_at bs 0) + 256 * of_char (byte_at bs 1)
                  + 65536 * of_char (byte_at bs 2) + 16777216 * of_char (byte_at bs 3))"

text \<open>
  \<open>txp_read(fd, buf, cap)\<close> on the rest of a file: the \<open>cap\<close> bytes read and what is
  left, or \<open>None\<close> (\<open>OS_ERROR\<close>) when end of file comes first.
\<close>

definition txp_read :: "string \<Rightarrow> nat \<Rightarrow> (string \<times> string) option" where
  "txp_read data n = (if length data < n then None else Some (take n data, drop n data))"

text \<open>
  A \<open>response_t\<close> filled from raw bytes, and its first \<open>n\<close> bytes as written by
  \<open>txp_write(fd, &rsp, n)\<close>. Bytes that were never set read as zero.
\<close>

definition rsp_of_bytes :: "string \<Rightarrow> response" where
  "rsp_of_bytes raw =
     \<lparr>rsp_len = bytes_u16 (byte_at raw 0) (byte_at raw 1),
      rsp_opcode = byte_u8 (byte_at raw 2),
      rsp_status = byte_u8 (byte_at raw 3),
      rsp_payload = drop RSP_HDR_SZ raw\<rparr>"

definition rsp_image :: "response \<Rightarrow> nat \<Rightarrow> string" where
  "rsp_image rsp n =
     take n (u16_bytes (rsp_len rsp) @ [u8_byte (rsp_opcode rsp), u8_byte (rsp_status rsp)]
             @ rsp_payload rsp
             @ replicate (n - RSP_HDR_SZ - length (rsp_payload rsp)) NUL)"

text \<open>\<open>sizeof(response_t)\<close>.\<close>

definition RSP_SZ :: nat where
  "RSP_SZ = 65535"

text \<open>
  The \<open>for\<close> loop of \<open>load_from_disk\<close>; the first argument is the number of iterations
  \<open>n - i\<close> still allowed by the entry count. Every \<open>break\<close> returns the cache as it is.
  Each record read becomes a new node at the head of the list (a file that repeats a
  key, which \<open>dump_to_disk\<close> never writes, is outside what the model covers).
\<close>

fun load_loop :: "nat \<Rightarrow> string \<Rightarrow> cache \<Rightarrow> cache" where
  "load_loop 0 data c = c"
| "load_loop (Suc k) data c =
     (if \<not> c_count c < c_cap c then c
      else
        (case txp_read data 2 of
           None \<Rightarrow> c
         | Some (kl, d1) \<Rightarrow>
             let klen = bytes_u16 (byte_at kl 0) (byte_at kl 1) in
             if klen = 0 \<or> unat klen > MAX_KEY_LEN then c
             else
               (case txp_read d1 (unat klen) of
                  None \<Rightarrow> c
                | Some (key, d2) \<Rightarrow>
                    (case txp_read d2 2 of
                       None \<Rightarrow> c
                     | Some (rl, d3) \<Rightarrow>
                         let rlen = bytes_u16 (byte_at rl 0) (byte_at rl 1) in
                         if unat rlen > RSP_SZ then c
                         else
                           (case txp_read d3 (unat rlen) of
                              None \<Rightarrow> c
                            | Some (raw, d4) \<Rightarrow>
                                load_loop k d4
                                  (c\<lparr>c_list := \<lparr>e_key = c_str key, e_rsp = rsp_of_bytes raw\<rparr>
                                                 # c_list c,
                                      c_count := c_count c + 1\<rparr>))))))"

text \<open>\<open>load_from_disk\<close>: \<open>None\<close> is a persistence file that cannot be opened.\<close>

definition load_from_disk :: "string option \<Rightarrow> cache \<Rightarrow> cache" where
  "load_from_disk file c =
     (case file of
        None \<Rightarrow> c
      | Some data \<Rightarrow>
          (case txp_read data 4 of
             None \<Rightarrow> c
           | Some (nb, rest) \<Rightarrow> load_loop (unat (bytes_u32 nb)) rest c))"

text \<open>\<open>dump_to_disk\<close>: the bytes written to the (truncated) persistence file.\<close>

definition entry_bytes :: "entry \<Rightarrow> string" where
  "entry_bytes e =
     (let klen = (word_of_nat (length (e_key e)) :: 16 word);
          rlen = rsp_len (e_rsp e) in
      u16_bytes klen @ take (unat klen) (e_key e)
      @ u16_bytes rlen @ rsp_image (e_rsp e) (unat rlen))"

definition dump_to_disk :: "cache \<Rightarrow> string" where
  "dump_to_disk c =
     u32_bytes (word_of_nat (c_count c)) @ concat (map entry_bytes (c_list c))"

text \<open>
  \<open>cache_init\<close>: the first argument is the module state before the call (\<open>None\<close>: \<open>ht\<close>
  is \<open>NULL\<close>), the last one the persistence file.
\<close>

definition cache_init :: "cache option \<Rightarrow> nat \<Rightarrow> string option \<Rightarrow> rc \<times> cache option" where
  "cache_init ht max_entries file =
     (case ht of
        Some c \<Rightarrow> (OS_ERROR, Some c)
      | None \<Rightarrow>
          let c = \<lparr>c_list = [], c_cap = max_entries, c_count = 0\<rparr> in
          (OS_OK, Some (if max_entries \<noteq> 0 then load_from_disk file c else c)))"

text \<open>
  \<open>cache_get\<close> and \<open>cache_put\<close>; \<open>kw\<close> is read as a C string. \<open>cache_get\<close> returns the
  code, \<open>*out\<close> on a hit, and the state.
\<close>

definition cache_get :: "cache \<Rightarrow> string \<Rightarrow> rc \<times> response option \<times> cache" where
  "cache_get c kw =
     (case ht_lookup (c_list c) (c_str kw) of
        None \<Rightarrow> (OS_ERROR, None, c)
      | Some i \<Rightarrow>
          (OS_OK, Some (e_rsp (c_list c ! i)), c\<lparr>c_list := move_front (c_list c) i\<rparr>))"

definition cache_put :: "cache \<Rightarrow> string \<Rightarrow> response \<Rightarrow> cache" where
  "cache_put c kw rsp =
     (if c_cap c = 0 then c
      else
        (case ht_lookup (c_list c) (c_str kw) of
           Some i \<Rightarrow>
             c\<lparr>c_list := move_front ((c_list c)[i := (c_list c ! i)\<lparr>e_rsp := rsp\<rparr>]) i\<rparr>
         | None \<Rightarrow>
             evict (c\<lparr>c_list := \<lparr>e_key = c_str kw, e_rsp = rsp\<rparr> # c_list c,
                      c_count := c_count c + 1\<rparr>)))"

text \<open>\<open>cache_cleanup\<close>: the persistence file written, if any; the state is torn down.\<close>

definition cache_cleanup :: "cache \<Rightarrow> string option" where
  "cache_cleanup c = (if c_cap c \<noteq> 0 then Some (dump_to_disk c) else None)"


definition cache_new :: "nat \<Rightarrow> cache" where
  "cache_new max_entries = \<lparr>c_list = [], c_cap = max_entries, c_count = 0\<rparr>"







definition cache_keys :: "cache \<Rightarrow> string list" where
  "cache_keys c = map e_key (c_list c)"



section \<open>Command table and argument codec (commands.c, arg_codec.c)\<close>

definition OP_A :: "8 word" where "OP_A = 0"
definition OP_C :: "8 word" where "OP_C = 1"
definition OP_D :: "8 word" where "OP_D = 2"
definition OP_L :: "8 word" where "OP_L = 3"
definition OP_S :: "8 word" where "OP_S = 4"
definition OP_F :: "8 word" where "OP_F = 5"

definition OP_COUNT :: nat where
  "OP_COUNT = 6"

record cmd_row =
  flag :: string
  types :: "8 word list"
  argc_min :: nat
  argc_max :: nat
  opcode :: "8 word"
  blocking :: bool

text \<open>The macro \<open>CMD_ROW\<close>: \<open>argc_max\<close> is the number of types given.\<close>

definition CMD_ROW :: "string \<Rightarrow> nat \<Rightarrow> 8 word \<Rightarrow> bool \<Rightarrow> 8 word list \<Rightarrow> cmd_row" where
  "CMD_ROW f mn op blk tys =
     \<lparr>flag = f, types = tys, argc_min = mn, argc_max = length tys, opcode = op,
      blocking = blk\<rparr>"

definition cmd_table :: "cmd_row list" where
  "cmd_table =
     [CMD_ROW ''-a'' 4 OP_A True [ARG_STR, ARG_STR, ARG_U32, ARG_STR],
      CMD_ROW ''-c'' 1 OP_C False [ARG_U32],
      CMD_ROW ''-d'' 1 OP_D True [ARG_U32],
      CMD_ROW ''-l'' 2 OP_L False [ARG_U32, ARG_STR],
      CMD_ROW ''-s'' 1 OP_S False [ARG_STR, ARG_U32],
      CMD_ROW ''-f'' 0 OP_F True []]"

definition cmd_by_opcode :: "8 word \<Rightarrow> cmd_row option" where
  "cmd_by_opcode op =
     (if unat op \<ge> OP_COUNT then None else Some (cmd_table ! unat op))"

text \<open>
  \<open>arg_val_t\<close>: the tag and the union. A zeroed \<open>arg_val_t\<close> is \<open>ArgU32 0\<close>. The
  accessors read the union member a handler asks for; by the time a handler runs, the
  member it reads is the one the schema put there, or the zeroed one.
\<close>

datatype arg_val = ArgU32 "32 word" | ArgStr string

fun arg_type :: "arg_val \<Rightarrow> 8 word" where
  "arg_type (ArgU32 v) = ARG_U32"
| "arg_type (ArgStr s) = ARG_STR"

fun arg_u32 :: "arg_val \<Rightarrow> 32 word" where
  "arg_u32 (ArgU32 v) = v"
| "arg_u32 (ArgStr s) = 0"

fun arg_str :: "arg_val \<Rightarrow> string" where
  "arg_str (ArgStr s) = s"
| "arg_str (ArgU32 v) = []"

text \<open>\<open>argv[i]\<close> of the argument array.\<close>

definition arg_at :: "arg_val list \<Rightarrow> nat \<Rightarrow> arg_val" where
  "arg_at argv i = (if i < length argv then argv ! i else ArgU32 0)"

definition dec_u32 :: "string \<Rightarrow> 16 word \<Rightarrow> rc \<times> arg_val option" where
  "dec_u32 wire len =
     (if unat len \<noteq> 4 then (OS_ERROR, None) else (OS_OK, Some (ArgU32 (bytes_u32 wire))))"

definition dec_str :: "string \<Rightarrow> 16 word \<Rightarrow> rc \<times> arg_val option" where
  "dec_str wire len = (OS_OK, Some (ArgStr (take (unat len) wire)))"

text \<open>\<open>arg_decoders[t]\<close>: \<open>None\<close> is a \<open>NULL\<close> entry.\<close>

definition arg_decoders :: "8 word \<Rightarrow> (string \<Rightarrow> 16 word \<Rightarrow> rc \<times> arg_val option) option" where
  "arg_decoders t =
     (if t = ARG_U32 then Some dec_u32 else if t = ARG_STR then Some dec_str else None)"

section \<open>Dispatcher: argument validation (dispatcher.c)\<close>

text \<open>
  The \<open>for\<close> loop of \<open>dismantle_request\<close>, from index \<open>i\<close> on; it returns the code and
  the argument array. Every row of the table has \<open>argc_max\<close> types, so \<open>types[i]\<close> is
  read in range.
\<close>

function dismantle_loop ::
  "cmd_row \<Rightarrow> nat \<Rightarrow> proto_cursor \<Rightarrow> arg_val list \<Rightarrow> rc \<times> arg_val list" where
  "dismantle_loop row i cur args =
     (if i < argc_max row then
        (case proto_cursor_next cur of
           Next_OK \<Rightarrow> if i < argc_min row then (OS_ERROR, args) else (OS_OK, args)
         | Next_ERROR \<Rightarrow> (OS_ERROR, args)
         | Next_AGAIN t v l cur' \<Rightarrow>
             if t \<noteq> types row ! i then (OS_ERROR, args)
             else
               (case arg_decoders t of
                  None \<Rightarrow> (OS_ERROR, args)
                | Some dec \<Rightarrow>
                    (case dec v l of
                       (OS_OK, Some a) \<Rightarrow> dismantle_loop row (Suc i) cur' (args[i := a])
                     | _ \<Rightarrow> (OS_ERROR, args))))
      else (OS_OK, args))"
  by pat_completeness auto
termination
  by (relation "measure (\<lambda>(row, i, cur, args). argc_max row - i)") auto

declare dismantle_loop.simps [simp del]

definition dismantle_request :: "request \<Rightarrow> cmd_row \<Rightarrow> arg_val list \<Rightarrow> rc \<times> arg_val list" where
  "dismantle_request req row args =
     dismantle_loop row 0
       (proto_cursor_init (req_payload req) (unat (req_len req) - REQ_HDR_SZ)) args"

section \<open>Handlers (handlers/*.c) and the per-key scan\<close>

text \<open>
  What a handler can see and change besides its arguments: the storage file, the
  document root (\<open>g_doc_root\<close>, empty when unset), the files below it, the number of
  processors \<open>get_nprocs\<close> reports and the platform's \<open>PATH_MAX\<close>.

  The last field is the scheduler. The workers that \<open>scan_parallel\<close> forks inherit
  the one descriptor \<open>stg_fd\<close> and with it one file offset, which every
  \<open>stg_get_doc\<close> moves in three separate system calls (\<open>lseek\<close> to the end,
  \<open>lseek\<close> to the record, \<open>read\<close>); and they set their bits with
  \<open>bmp[...] |= mask\<close>, a read and a write of a shared byte that is not atomic. When
  two or more workers run, a worker can therefore read another record than the one it
  sought, or the end of the file, and a bit one worker has set can be overwritten by
  another's stale byte: what the bitmap holds when the workers have exited depends on
  how they were interleaved, which the code does not determine. \<open>w_raced w kw total n
  bmp\<close> is the bitmap that \<open>n\<close> such workers leave, for the term \<open>kw\<close> and the keys
  below \<open>total\<close>, starting from \<open>bmp\<close>.
\<close>

record world =
  w_store :: store
  w_docroot :: string
  w_files :: filesystem
  w_cpus :: nat
  w_PATH_MAX :: nat
  w_raced :: "string \<Rightarrow> nat \<Rightarrow> nat \<Rightarrow> 8 word list \<Rightarrow> 8 word list"

definition docroot_get :: "world \<Rightarrow> string option" where
  "docroot_get w = (if c_str (w_docroot w) = [] then None else Some (c_str (w_docroot w)))"

text \<open>\<open>printf\<close>'s \<open>%u\<close> and \<open>%d\<close>.\<close>

function show_nat :: "nat \<Rightarrow> string" where
  "show_nat n =
     (if n < 10 then [char_of (48 + n)]
      else show_nat (n div 10) @ [char_of (48 + n mod 10)])"
  by pat_completeness auto
termination
  by (relation "measure id") auto

declare show_nat.simps [simp del]

definition show_int :: "int \<Rightarrow> string" where
  "show_int i = (if i < 0 then CHR ''-'' # show_nat (nat (- i)) else show_nat (nat i))"

text \<open>\<open>doc_build_path\<close>: the code and the path written to \<open>dst\<close>.\<close>

definition doc_build_path :: "world \<Rightarrow> int \<Rightarrow> rc \<times> string" where
  "doc_build_path w key =
     (if w_PATH_MAX w = 0 then (OS_ERROR, [])
      else
        (case docroot_get w of
           None \<Rightarrow> (OS_ERROR, [])
         | Some root \<Rightarrow>
             (case stg_get_doc (w_store w) key of
                (OS_OK, Some doc) \<Rightarrow>
                  if d_key doc = -1 then (OS_ERROR, [])
                  else
                    let p = root @ ''/'' @ c_str (d_path doc) in
                    if length p \<ge> w_PATH_MAX w then (OS_ERROR, [])
                    else (OS_OK, p)
              | _ \<Rightarrow> (OS_ERROR, []))))"

definition doc_key_contains_keyword :: "world \<Rightarrow> int \<Rightarrow> string \<Rightarrow> int" where
  "doc_key_contains_keyword w key kw =
     (case doc_build_path w key of
        (OS_OK, fullpath) \<Rightarrow> doc_contains_keyword (w_files w) fullpath kw
      | _ \<Rightarrow> -1)"

text \<open>The shared bitmap: \<open>BITSET_BYTE\<close>, \<open>BITSET_MASK\<close>, setting and testing a bit.\<close>

definition BITSET_BYTE :: "nat \<Rightarrow> nat" where
  "BITSET_BYTE i = i div 8"

definition BITSET_MASK :: "nat \<Rightarrow> 8 word" where
  "BITSET_MASK i = push_bit (i mod 8) 1"

definition bmp_set :: "8 word list \<Rightarrow> nat \<Rightarrow> 8 word list" where
  "bmp_set bmp k = bmp[BITSET_BYTE k := or (bmp ! BITSET_BYTE k) (BITSET_MASK k)]"

definition bmp_test :: "8 word list \<Rightarrow> nat \<Rightarrow> bool" where
  "bmp_test bmp k \<longleftrightarrow> and (bmp ! BITSET_BYTE k) (BITSET_MASK k) \<noteq> 0"

text \<open>One iteration of a worker's loop for the key \<open>k\<close> it drew from the counter.\<close>

definition scan_key :: "world \<Rightarrow> string \<Rightarrow> 8 word list \<Rightarrow> nat \<Rightarrow> 8 word list" where
  "scan_key w kw bmp k =
     (if doc_key_contains_keyword w (int k) kw = 1 then bmp_set bmp k else bmp)"

text \<open>
  The number of workers \<open>scan_parallel\<close> forks: the requested number, 1 for 0, capped
  by ten times the number of processors and by the total.
\<close>

definition scan_workers :: "world \<Rightarrow> int \<Rightarrow> nat \<Rightarrow> nat" where
  "scan_workers w tot workers =
     (let w1 = (if workers = 0 then 1 else workers);
          w2 = (if w1 > w_cpus w * 10 then w_cpus w * 10 else w1);
          w3 = (if w2 > nat tot then nat tot else w2)
      in w3)"

text \<open>
  \<open>scan_parallel\<close> (\<open>fork\<close> and \<open>mmap\<close> are taken to succeed). With no worker the loop
  that forks does nothing and the bitmap is left as it is. A single worker draws the
  keys \<open>0, 1, ..., total - 1\<close> from the counter one after the other and runs its
  iteration on each, alone on the descriptor and on the bitmap: that is the fold. With
  two or more workers each key is still drawn exactly once (the counter is atomic), but
  the iterations race on the file offset and on the bitmap bytes, and the bitmap is the
  one the scheduler leaves.
\<close>

definition scan_parallel ::
  "world \<Rightarrow> string \<Rightarrow> int \<Rightarrow> nat \<Rightarrow> 8 word list \<Rightarrow> rc \<times> 8 word list" where
  "scan_parallel w kw tot workers bmp =
     (let n = scan_workers w tot workers
      in (OS_OK,
          if n = 0 then bmp
          else if n = 1 then foldl (scan_key w kw) bmp [0 ..< nat tot]
          else w_raced w kw (nat tot) n bmp))"

definition LIST_CAP :: nat where
  "LIST_CAP = RSP_MAX - TLV_HDR_SZ"

text \<open>The loop of \<open>handle_s\<close> that prints the set bits: the text so far and \<open>first\<close>.\<close>

definition list_step :: "8 word list \<Rightarrow> string \<times> bool \<Rightarrow> nat \<Rightarrow> string \<times> bool" where
  "list_step bmp st k =
     (if bmp_test bmp k
      then (fst st @ (if snd st then [] else '', '') @ show_int (int k), False)
      else st)"

text \<open>
  The worker count \<open>handle_s\<close> takes from its second argument: 1 unless the argument
  is a nonzero \<open>u32\<close>.
\<close>

definition workers_of_arg :: "arg_val \<Rightarrow> nat" where
  "workers_of_arg a =
     (if arg_type a = ARG_U32 \<and> arg_u32 a \<noteq> 0 then unat (arg_u32 a) else 1)"

text \<open>The keyword buffer \<open>kw[256]\<close> of \<open>handle_s\<close> and \<open>handle_l\<close>, read as a C string.\<close>

definition kw_of_arg :: "arg_val \<Rightarrow> string" where
  "kw_of_arg a =
     (let kw_len = (if length (arg_str a) \<ge> 256 then 255 else length (arg_str a))
      in c_str (take kw_len (arg_str a)))"

text \<open>
  A handler gets the environment, the argument array and the response struct as it is
  before the call; it returns the code, the response struct and the environment.
  In \<open>handle_s\<close>, \<open>sprintf\<close> writes the list into \<open>list_buf[LIST_CAP]\<close> without a
  bound, and \<open>total + 7\<close> is computed in \<open>int\<close>: the model covers the runs in which
  the text and its terminator fit the buffer and the sum does not overflow.
\<close>

type_synonym handler = "world \<Rightarrow> arg_val list \<Rightarrow> response \<Rightarrow> rc \<times> response \<times> world"

definition handle_s :: handler where
  "handle_s w argv rsp =
     (let kw = kw_of_arg (arg_at argv 0);
          workers = workers_of_arg (arg_at argv 1);
          tot = stg_total (w_store w)
      in if tot \<le> 0 then (OS_ERROR, rsp, w)
         else
           let bmp_bytes = (nat tot + 7) div 8;
               bmp = replicate bmp_bytes 0
           in (case scan_parallel w kw tot workers bmp of
                 (OS_ERROR, _) \<Rightarrow> (OS_ERROR, rsp, w)
               | (_, bmp') \<Rightarrow>
                   let list_buf = fst (foldl (list_step bmp') (''['', True) [0 ..< nat tot])
                                  @ '']''
                   in (OS_OK, proto_build_simple_rsp OP_S list_buf, w)))"

definition handle_l :: handler where
  "handle_l w argv rsp =
     (let key = sint (arg_u32 (arg_at argv 0));
          kw = kw_of_arg (arg_at argv 1)
      in (case stg_get_doc (w_store w) key of
            (OS_OK, _) \<Rightarrow>
              (case doc_build_path w key of
                 (OS_OK, fullpath) \<Rightarrow>
                   (case doc_count_keyword (w_files w) fullpath kw False of
                      (OS_ERROR, _) \<Rightarrow> (OS_ERROR, rsp, w)
                    | (_, cnt) \<Rightarrow>
                        (case proto_rsp_init OP_L 0 of
                           (_, rsp', b) \<Rightarrow>
                             (case proto_add_tlv b ARG_U32 (u32_bytes (word_of_nat cnt)) of
                                (_, b') \<Rightarrow> (OS_OK, snd (proto_rsp_finish rsp' b'), w))))
               | _ \<Rightarrow> (OS_OK, proto_build_simple_rsp OP_L ''Path not found'', w))
          | _ \<Rightarrow> (OS_OK, proto_build_simple_rsp OP_L ''Document not found'', w)))"

definition handle_c :: handler where
  "handle_c w argv rsp =
     (let key = sint (arg_u32 (arg_at argv 0)) in
      (case stg_get_doc (w_store w) key of
         (OS_OK, Some doc) \<Rightarrow>
           (case proto_rsp_init OP_C 0 of
              (_, rsp', b0) \<Rightarrow>
                let b1 = snd (proto_add_tlv b0 ARG_STR
                                (take 255 (''Title: '' @ c_str (d_title doc))));
                    b2 = snd (proto_add_tlv b1 ARG_STR
                                (take 255 (''Authors: '' @ c_str (d_authors doc))));
                    b3 = snd (proto_add_tlv b2 ARG_STR
                                (take 255 (''Year: '' @ show_nat (unat (d_year doc)))));
                    b4 = snd (proto_add_tlv b3 ARG_STR
                                (take 255 (''Path: '' @ c_str (d_path doc))))
                in (OS_OK, snd (proto_rsp_finish rsp' b4), w))
       | _ \<Rightarrow> (OS_OK, proto_build_simple_rsp OP_C ''Document not found'', w)))"

definition MAX_TITLE_LEN :: nat where "MAX_TITLE_LEN = 200"
definition MAX_AUTHORS_LEN :: nat where "MAX_AUTHORS_LEN = 200"
definition MAX_PATH_LEN :: nat where "MAX_PATH_LEN = 64"

text \<open>The copy \<open>memcpy(dst, ptr, n); dst[n] = 0\<close> of \<open>handle_a\<close> into an array of \<open>cap\<close> bytes.\<close>

definition copy_field :: "string \<Rightarrow> nat \<Rightarrow> string" where
  "copy_field s cap = take (if length s < cap then length s else cap - 1) s"

definition handle_a :: handler where
  "handle_a w argv rsp =
     (let doc = \<lparr>d_key = 0,
                 d_title = copy_field (arg_str (arg_at argv 0)) MAX_TITLE_LEN,
                 d_authors = copy_field (arg_str (arg_at argv 1)) MAX_AUTHORS_LEN,
                 d_path = copy_field (arg_str (arg_at argv 3)) MAX_PATH_LEN,
                 d_year = arg_u32 (arg_at argv 2)\<rparr>
      in (case stg_add_doc (w_store w) doc of
            (key, st') \<Rightarrow>
              if key = -1 then (OS_ERROR, rsp, w\<lparr>w_store := st'\<rparr>)
              else (OS_OK,
                    proto_build_simple_rsp OP_A
                      (take 63 (''Document '' @ show_int key @ '' indexed'')),
                    w\<lparr>w_store := st'\<rparr>)))"

definition handle_d :: handler where
  "handle_d w argv rsp =
     (let key = sint (arg_u32 (arg_at argv 0)) in
      (case stg_del_doc (w_store w) key of
         (OS_OK, st') \<Rightarrow>
           (OS_OK,
            proto_build_simple_rsp OP_D
              (take 63 (''Index entry '' @ show_int key @ '' deleted'')),
            w\<lparr>w_store := st'\<rparr>)
       | (_, st') \<Rightarrow>
           (OS_OK,
            proto_build_simple_rsp OP_D
              (take 63 (''Index entry '' @ show_int key @ '' not found'')),
            w\<lparr>w_store := st'\<rparr>)))"

definition handle_f :: handler where
  "handle_f w argv rsp = (OS_SHUTDOWN, proto_build_simple_rsp OP_F ''Server is shutting down'', w)"

text \<open>The table \<open>handlers[OP_COUNT]\<close>, indexed by opcode.\<close>

definition handlers :: "8 word \<Rightarrow> handler" where
  "handlers op =
     (if op = OP_A then handle_a
      else if op = OP_C then handle_c
      else if op = OP_D then handle_d
      else if op = OP_L then handle_l
      else if op = OP_S then handle_s
      else handle_f)"

definition dispatch_request ::
  "world \<Rightarrow> request \<Rightarrow> cmd_row \<Rightarrow> response \<Rightarrow> rc \<times> response \<times> world" where
  "dispatch_request w req row out =
     (case dismantle_request req row (replicate (argc_max row) (ArgU32 0)) of
        (OS_ERROR, _) \<Rightarrow> (OS_ERROR, out, w)
      | (_, args) \<Rightarrow> handlers (opcode row) w args out)"

section \<open>Serve loop (dserver.c)\<close>

definition TXP_MAX :: nat where
  "TXP_MAX = RSP_MAX"

text \<open>
  \<open>proto_send_rsp\<close> writes the first \<open>hdr.len\<close> bytes of the response struct;
  \<open>proto_recv_rsp\<close> reads a frame back from the bytes on the pipe.
\<close>

definition proto_send_rsp :: "response \<Rightarrow> string" where
  "proto_send_rsp rsp = rsp_image rsp (unat (rsp_len rsp))"

definition proto_recv_rsp :: "string \<Rightarrow> rc \<times> response option" where
  "proto_recv_rsp data =
     (case txp_read data RSP_HDR_SZ of
        None \<Rightarrow> (OS_ERROR, None)
      | Some (hdr, rest) \<Rightarrow>
          let len = unat (bytes_u16 (byte_at hdr 0) (byte_at hdr 1)) in
          if len < RSP_HDR_SZ \<or> len > RSP_MAX then (OS_ERROR, None)
          else
            (case txp_read rest (len - RSP_HDR_SZ) of
               None \<Rightarrow> (OS_ERROR, None)
             | Some (payload, _) \<Rightarrow> (OS_OK, Some (rsp_of_bytes (hdr @ payload)))))"

text \<open>
  \<open>txp_reply(pid, buf, len)\<close>: the frame delivered to the client \<open>pid\<close>, if the call
  gets as far as writing (the client's FIFO is taken to open).
\<close>

definition txp_reply :: "int \<Rightarrow> response \<Rightarrow> nat \<Rightarrow> (int \<times> string) option" where
  "txp_reply pid rsp len =
     (if len = 0 \<or> len > TXP_MAX \<or> pid \<le> 0 then None
      else Some (pid, rsp_image rsp len))"

text \<open>
  The child of \<open>spawn_nonblock_child\<close>: the bytes it writes to the pipe. \<open>junk\<close> is the
  content of its uninitialised \<open>response_t rsp\<close>. \<open>pipe\<close> and \<open>fork\<close> are taken to
  succeed.
\<close>

definition spawn_nonblock_child :: "world \<Rightarrow> request \<Rightarrow> cmd_row \<Rightarrow> response \<Rightarrow> string" where
  "spawn_nonblock_child w req cmd junk =
     (case dispatch_request w req cmd junk of
        (cr, rsp, _) \<Rightarrow>
          proto_send_rsp
            (if cr = OS_ERROR then proto_build_simple_rsp (opcode cmd) ''ERR'' else rsp))"

record server =
  sv_world :: world
  sv_cache :: cache

text \<open>
  One iteration of the loop of \<open>serve_requests\<close>, from the request that
  \<open>proto_recv_req\<close> returned: the server afterwards, the frame sent to the client if
  any, and whether the loop returns \<open>OS_SHUTDOWN\<close>.
\<close>

definition cache_hit :: "server \<Rightarrow> request \<Rightarrow> (response \<times> cache) option" where
  "cache_hit sv req =
     (if req_opcode req = OP_S then
        (case proto_arg_first_str req 256 of
           (OS_OK, kw) \<Rightarrow>
             (case cache_get (sv_cache sv) kw of
                (OS_OK, Some hit, c') \<Rightarrow> Some (hit, c')
              | _ \<Rightarrow> None)
         | _ \<Rightarrow> None)
      else None)"

definition serve_one ::
  "response \<Rightarrow> server \<Rightarrow> request \<Rightarrow> server \<times> (int \<times> string) option \<times> bool" where
  "serve_one junk sv req =
     (case cmd_by_opcode (req_opcode req) of
        None \<Rightarrow> (sv, None, False)
      | Some cmd \<Rightarrow>
          (case cache_hit sv req of
             Some (hit, c') \<Rightarrow>
               (sv\<lparr>sv_cache := c'\<rparr>, txp_reply (req_pid req) hit (unat (rsp_len hit)), False)
           | None \<Rightarrow>
               if \<not> blocking cmd then
                 (case proto_recv_rsp (spawn_nonblock_child (sv_world sv) req cmd junk) of
                    (OS_OK, Some rsp) \<Rightarrow>
                      let c' = (if req_opcode req = OP_S then
                                  (case proto_arg_first_str req 256 of
                                     (OS_OK, kw) \<Rightarrow> cache_put (sv_cache sv) kw rsp
                                   | _ \<Rightarrow> sv_cache sv)
                                else sv_cache sv)
                      in (sv\<lparr>sv_cache := c'\<rparr>,
                          txp_reply (req_pid req) rsp (unat (rsp_len rsp)), False)
                  | _ \<Rightarrow> (sv, None, False))
               else
                 (case dispatch_request (sv_world sv) req cmd junk of
                    (cr, rsp, w') \<Rightarrow>
                      (sv\<lparr>sv_world := w'\<rparr>,
                       if cr \<noteq> OS_ERROR then txp_reply (req_pid req) rsp (unat (rsp_len rsp))
                       else None,
                       cr = OS_SHUTDOWN))))"

text \<open>
  A request frame as \<open>build_req\<close> leaves it when the TLVs fit (lemma
  \<open>build_req_mk_request\<close>): opcode, sender and TLVs.
\<close>

definition mk_request :: "8 word \<Rightarrow> int \<Rightarrow> (8 word \<times> string) list \<Rightarrow> request" where
  "mk_request op pid tlvs =
     \<lparr>req_len = word_of_nat (REQ_HDR_SZ + tlvs_size tlvs), req_opcode = op, req_pid = pid,
      req_payload = tlv_bytes tlvs\<rparr>"

section \<open>Concrete inputs\<close>

text \<open>
  A server environment with one live document, key 0, whose file holds the given
  bytes, and the environment with an empty store. Their scheduler lets racing workers
  lose every hit.
\<close>

definition world_with :: "string \<Rightarrow> world" where
  "world_with content =
     \<lparr>w_store = [doc_T], w_docroot = ''docs'',
      w_files = (\<lambda>p. if p = ''docs/f.txt'' then Some content else None),
      w_cpus = 4, w_PATH_MAX = 4096, w_raced = (\<lambda>kw tot n bmp. bmp)\<rparr>"

definition world_empty :: world where
  "world_empty =
     \<lparr>w_store = [], w_docroot = ''docs'', w_files = (\<lambda>p. None), w_cpus = 4,
      w_PATH_MAX = 4096, w_raced = (\<lambda>kw tot n bmp. bmp)\<rparr>"

text \<open>Some content of the child's response struct before the handler runs.\<close>

definition rsp_junk :: response where
  "rsp_junk = \<lparr>rsp_len = 0, rsp_opcode = 0, rsp_status = 0, rsp_payload = []\<rparr>"

text \<open>A cache of capacity 2 holding the keys \<open>a\<close> (most recent) and \<open>b\<close>.\<close>

definition cache_ab :: cache where
  "cache_ab =
     \<lparr>c_list = [\<lparr>e_key = ''a'', e_rsp = proto_build_simple_rsp OP_S ''[0]''\<rparr>,
                \<lparr>e_key = ''b'', e_rsp = proto_build_simple_rsp OP_S ''[]''\<rparr>],
      c_cap = 2, c_count = 2\<rparr>"




section \<open>Properties: framing\<close>

lemma byte_u8_u8_byte: "byte_u8 (u8_byte t) = t"
proof -
  have "unat t < 256" using unsigned_less[of t, where ?'a = nat] by simp
  then show ?thesis by (simp add: byte_u8_def u8_byte_def)
qed

lemma bytes_u16_u16_bytes: "u16_bytes w = [lo, hi] \<Longrightarrow> bytes_u16 lo hi = w"
proof -
  assume a: "u16_bytes w = [lo, hi]"
  have lt: "unat w < 65536" using unsigned_less[of w, where ?'a = nat] by simp
  then have d: "unat w div 256 < 256" by simp
  have "(of_char lo :: nat) + 256 * of_char hi = unat w mod 256 + 256 * (unat w div 256)"
    using a d by (auto simp: u16_bytes_def)
  also have "\<dots> = unat w" by simp
  finally show ?thesis by (simp add: bytes_u16_def)
qed

lemma length_tlv_hdr: "length (tlv_hdr t n) = 3"
  by (simp add: tlv_hdr_def u16_bytes_def)

lemma length_tlv_bytes: "length (tlv_bytes tlvs) = tlvs_size tlvs"
  by (induction tlvs) (auto simp: tlv_bytes_def tlvs_size_def length_tlv_hdr)

lemma tlvs_size_Cons: "tlvs_size ((t, v) # tlvs) = 3 + length v + tlvs_size tlvs"
  by (simp add: tlvs_size_def)

lemma tlv_bytes_Cons: "tlv_bytes ((t, v) # tlvs) = tlv_hdr t (length v) @ v @ tlv_bytes tlvs"
  by (simp add: tlv_bytes_def)

lemma add_tlvs_ok:
  "b_used b = length (b_buf b) \<Longrightarrow> b_used b + tlvs_size tlvs \<le> b_cap b \<Longrightarrow>
   b_cap b \<le> 65538 \<Longrightarrow>
   add_tlvs b tlvs =
     (OS_OK, b\<lparr>b_buf := b_buf b @ tlv_bytes tlvs, b_used := b_used b + tlvs_size tlvs\<rparr>)"
proof (induction tlvs arbitrary: b)
  case Nil
  then show ?case by (simp add: tlv_bytes_def tlvs_size_def)
next
  case (Cons x tlvs)
  obtain t v where x: "x = (t, v)" by (cases x)
  let ?b' = "b\<lparr>b_buf := b_buf b @ tlv_hdr t (length v) @ v, b_used := b_used b + (3 + length v)\<rparr>"
  have sz: "b_used b + (3 + length v) + tlvs_size tlvs \<le> b_cap b"
    using Cons.prems(2) by (simp add: x tlvs_size_Cons)
  then have len: "length v \<le> 65535" using Cons.prems(3) by simp
  have step: "proto_add_tlv b t v = (OS_OK, ?b')"
    using sz len Cons.prems(1)
    by (simp add: proto_add_tlv_def Let_def UINT16_MAX_def TLV_HDR_SZ_def)
  have "add_tlvs ?b' tlvs =
     (OS_OK, ?b'\<lparr>b_buf := b_buf ?b' @ tlv_bytes tlvs, b_used := b_used ?b' + tlvs_size tlvs\<rparr>)"
    by (rule Cons.IH) (use sz Cons.prems in \<open>simp_all add: length_tlv_hdr\<close>)
  then show ?case
    by (simp add: x step tlv_bytes_Cons tlvs_size_Cons add.assoc)
qed

lemma cursor_next_tlv:
  assumes "length v \<le> 65535"
  shows "proto_cursor_next
           \<lparr>c_buf = pre @ tlv_hdr t (length v) @ v @ rest, c_cur = length pre,
            c_end = length pre + (3 + length v) + length rest\<rparr>
         = Next_AGAIN t v (word_of_nat (length v))
             \<lparr>c_buf = pre @ tlv_hdr t (length v) @ v @ rest, c_cur = length pre + (3 + length v),
              c_end = length pre + (3 + length v) + length rest\<rparr>"
proof -
  obtain lo hi where h: "u16_bytes (word_of_nat (length v)) = [lo, hi]"
    by (simp add: u16_bytes_def)
  have hdr: "tlv_hdr t (length v) = [u8_byte t, lo, hi]"
    by (simp add: tlv_hdr_def h)
  have l: "bytes_u16 lo hi = word_of_nat (length v)"
    by (rule bytes_u16_u16_bytes[OF h])
  have u: "unat (word_of_nat (length v) :: 16 word) = length v"
    using assms by (simp add: unat_of_nat)
  show ?thesis
    by (simp add: proto_cursor_next_def hdr byte_at_def nth_append TLV_HDR_SZ_def
        byte_u8_u8_byte l u Let_def)
qed

lemma cursor_all_tlv_bytes:
  "list_all (\<lambda>(t, v). length v \<le> 65535) tlvs \<Longrightarrow>
   cursor_all \<lparr>c_buf = pre @ tlv_bytes tlvs, c_cur = length pre,
               c_end = length pre + tlvs_size tlvs\<rparr>
   = (map (\<lambda>(t, v). (t, v, word_of_nat (length v))) tlvs, End)"
proof (induction tlvs arbitrary: pre)
  case Nil
  show ?case
    by (subst cursor_all.simps)
       (simp add: proto_cursor_next_def tlv_bytes_def tlvs_size_def TLV_HDR_SZ_def)
next
  case (Cons x tlvs)
  obtain t v where x: "x = (t, v)" by (cases x)
  have len: "length v \<le> 65535" and rest: "list_all (\<lambda>(t, v). length v \<le> 65535) tlvs"
    using Cons.prems by (simp_all add: x)
  let ?pre' = "pre @ tlv_hdr t (length v) @ v"
  have ih: "cursor_all \<lparr>c_buf = ?pre' @ tlv_bytes tlvs, c_cur = length ?pre',
               c_end = length ?pre' + tlvs_size tlvs\<rparr>
   = (map (\<lambda>(t, v). (t, v, word_of_nat (length v))) tlvs, End)"
    by (rule Cons.IH[OF rest])
  have nxt: "proto_cursor_next
           \<lparr>c_buf = pre @ tlv_hdr t (length v) @ v @ tlv_bytes tlvs, c_cur = length pre,
            c_end = length pre + (3 + length v) + length (tlv_bytes tlvs)\<rparr>
         = Next_AGAIN t v (word_of_nat (length v))
             \<lparr>c_buf = pre @ tlv_hdr t (length v) @ v @ tlv_bytes tlvs,
              c_cur = length pre + (3 + length v),
              c_end = length pre + (3 + length v) + length (tlv_bytes tlvs)\<rparr>"
    by (rule cursor_next_tlv[OF len])
  show ?case
    apply (subst cursor_all.simps)
    using ih nxt
    apply (simp add: x tlv_bytes_Cons tlvs_size_Cons length_tlv_bytes length_tlv_hdr add.assoc)
    done
qed

lemma tlvs_size_bound:
  "tlvs_size tlvs \<le> n \<Longrightarrow> list_all (\<lambda>(t, v). length v \<le> n) tlvs"
  by (induction tlvs arbitrary: n) (auto simp: tlvs_size_def)

text \<open>
  Claim C6 (framing). For any sequence of Add TLV calls on a fresh builder whose sizes
  \<open>3 + len\<close> sum to at most the payload capacity (\<open>RSP_MAX - RSP_HDR_SZ\<close> for a
  response, \<open>REQ_MAX - REQ_HDR_SZ\<close> for a request), every add and Finish succeed, the
  header length is the header size plus that sum, and a cursor initialised over the
  finished frame's payload yields exactly the appended TLVs (type, bytes, length) in
  order and then ends with End.
\<close>

theorem framing_roundtrip:
  "(tlvs_size tlvs \<le> RSP_MAX - RSP_HDR_SZ \<longrightarrow>
      (\<exists>rsp. build_rsp op status tlvs = (OS_OK, rsp) \<and>
         unat (rsp_len rsp) = RSP_HDR_SZ + tlvs_size tlvs \<and>
         cursor_all (proto_cursor_init (rsp_payload rsp) (unat (rsp_len rsp) - RSP_HDR_SZ))
           = (map (\<lambda>(t, v). (t, v, word_of_nat (length v))) tlvs, End))) \<and>
   (tlvs_size tlvs \<le> REQ_MAX - REQ_HDR_SZ \<longrightarrow>
      (\<exists>req. build_req op pid tlvs = (OS_OK, req) \<and>
         unat (req_len req) = REQ_HDR_SZ + tlvs_size tlvs \<and>
         cursor_all (proto_cursor_init (req_payload req) (unat (req_len req) - REQ_HDR_SZ))
           = (map (\<lambda>(t, v). (t, v, word_of_nat (length v))) tlvs, End)))"
proof (intro conjI impI)
  assume a: "tlvs_size tlvs \<le> RSP_MAX - RSP_HDR_SZ"
  let ?b0 = "\<lparr>b_buf = [], b_cap = RSP_MAX - RSP_HDR_SZ, b_used = 0\<rparr>"
  have sz: "tlvs_size tlvs \<le> 65531"
    using a by (simp add: RSP_MAX_def RSP_HDR_SZ_def)
  have add: "add_tlvs ?b0 tlvs =
     (OS_OK, ?b0\<lparr>b_buf := b_buf ?b0 @ tlv_bytes tlvs, b_used := b_used ?b0 + tlvs_size tlvs\<rparr>)"
    by (rule add_tlvs_ok) (use sz in \<open>simp_all add: RSP_MAX_def RSP_HDR_SZ_def\<close>)
  have all: "list_all (\<lambda>(t, v). length v \<le> 65535) tlvs"
    using tlvs_size_bound[of tlvs 65535] sz by simp
  have cur: "cursor_all \<lparr>c_buf = [] @ tlv_bytes tlvs, c_cur = length ([] :: string),
               c_end = length ([] :: string) + tlvs_size tlvs\<rparr>
   = (map (\<lambda>(t, v). (t, v, word_of_nat (length v))) tlvs, End)"
    by (rule cursor_all_tlv_bytes[OF all])
  have u: "unat (word_of_nat (4 + tlvs_size tlvs) :: 16 word) = 4 + tlvs_size tlvs"
    using sz by (subst unat_of_nat) simp
  show "\<exists>rsp. build_rsp op status tlvs = (OS_OK, rsp) \<and>
         unat (rsp_len rsp) = RSP_HDR_SZ + tlvs_size tlvs \<and>
         cursor_all (proto_cursor_init (rsp_payload rsp) (unat (rsp_len rsp) - RSP_HDR_SZ))
           = (map (\<lambda>(t, v). (t, v, word_of_nat (length v))) tlvs, End)"
    using add cur u sz
    by (simp add: build_rsp_def proto_rsp_init_def proto_rsp_finish_def check_cap_def
        Let_def RSP_MAX_def RSP_HDR_SZ_def proto_cursor_init_def)
next
  assume a: "tlvs_size tlvs \<le> REQ_MAX - REQ_HDR_SZ"
  let ?b0 = "\<lparr>b_buf = [], b_cap = REQ_MAX - REQ_HDR_SZ, b_used = 0\<rparr>"
  have sz: "tlvs_size tlvs \<le> 65528"
    using a by (simp add: REQ_MAX_def REQ_HDR_SZ_def)
  have add: "add_tlvs ?b0 tlvs =
     (OS_OK, ?b0\<lparr>b_buf := b_buf ?b0 @ tlv_bytes tlvs, b_used := b_used ?b0 + tlvs_size tlvs\<rparr>)"
    by (rule add_tlvs_ok) (use sz in \<open>simp_all add: REQ_MAX_def REQ_HDR_SZ_def\<close>)
  have all: "list_all (\<lambda>(t, v). length v \<le> 65535) tlvs"
    using tlvs_size_bound[of tlvs 65535] sz by simp
  have cur: "cursor_all \<lparr>c_buf = [] @ tlv_bytes tlvs, c_cur = length ([] :: string),
               c_end = length ([] :: string) + tlvs_size tlvs\<rparr>
   = (map (\<lambda>(t, v). (t, v, word_of_nat (length v))) tlvs, End)"
    by (rule cursor_all_tlv_bytes[OF all])
  have u: "unat (word_of_nat (7 + tlvs_size tlvs) :: 16 word) = 7 + tlvs_size tlvs"
    using sz by (subst unat_of_nat) simp
  show "\<exists>req. build_req op pid tlvs = (OS_OK, req) \<and>
         unat (req_len req) = REQ_HDR_SZ + tlvs_size tlvs \<and>
         cursor_all (proto_cursor_init (req_payload req) (unat (req_len req) - REQ_HDR_SZ))
           = (map (\<lambda>(t, v). (t, v, word_of_nat (length v))) tlvs, End)"
    using add cur u sz
    by (simp add: build_req_def proto_req_init_def proto_req_finish_def check_cap_def
        Let_def REQ_MAX_def REQ_HDR_SZ_def proto_cursor_init_def)
qed

theorem framing_roundtrip_witness:
  "tlvs_size [(ARG_STR, ''ab''), (ARG_U32, ''abcd'')] \<le> RSP_MAX - RSP_HDR_SZ \<and>
   (\<exists>rsp. build_rsp 4 0 [(ARG_STR, ''ab''), (ARG_U32, ''abcd'')] = (OS_OK, rsp) \<and>
      unat (rsp_len rsp) = RSP_HDR_SZ + tlvs_size [(ARG_STR, ''ab''), (ARG_U32, ''abcd'')] \<and>
      cursor_all (proto_cursor_init (rsp_payload rsp) (unat (rsp_len rsp) - RSP_HDR_SZ))
        = ([(ARG_STR, ''ab'', 2), (ARG_U32, ''abcd'', 4)], End)) \<and>
   tlvs_size [(ARG_STR, ''ab''), (ARG_U32, ''abcd'')] \<le> REQ_MAX - REQ_HDR_SZ \<and>
   (\<exists>req. build_req 4 1234 [(ARG_STR, ''ab''), (ARG_U32, ''abcd'')] = (OS_OK, req) \<and>
      unat (req_len req) = REQ_HDR_SZ + tlvs_size [(ARG_STR, ''ab''), (ARG_U32, ''abcd'')] \<and>
      cursor_all (proto_cursor_init (req_payload req) (unat (req_len req) - REQ_HDR_SZ))
        = ([(ARG_STR, ''ab'', 2), (ARG_U32, ''abcd'', 4)], End))"
proof -
  have h: "tlvs_size [(ARG_STR, ''ab''), (ARG_U32, ''abcd'')] \<le> RSP_MAX - RSP_HDR_SZ"
    by (simp add: tlvs_size_def RSP_MAX_def RSP_HDR_SZ_def)
  have g: "tlvs_size [(ARG_STR, ''ab''), (ARG_U32, ''abcd'')] \<le> REQ_MAX - REQ_HDR_SZ"
    by (simp add: tlvs_size_def REQ_MAX_def REQ_HDR_SZ_def)
  show ?thesis
    using h g framing_roundtrip [of "[(ARG_STR, ''ab''), (ARG_U32, ''abcd'')]" 4 0 1234]
    by simp
qed

lemma build_req_mk_request:
  assumes "tlvs_size tlvs \<le> REQ_MAX - REQ_HDR_SZ"
  shows "build_req op pid tlvs = (OS_OK, mk_request op pid tlvs)"
proof -
  let ?b0 = "\<lparr>b_buf = [], b_cap = REQ_MAX - REQ_HDR_SZ, b_used = 0\<rparr>"
  have sz: "tlvs_size tlvs \<le> 65528"
    using assms by (simp add: REQ_MAX_def REQ_HDR_SZ_def)
  have add: "add_tlvs ?b0 tlvs =
     (OS_OK, ?b0\<lparr>b_buf := b_buf ?b0 @ tlv_bytes tlvs, b_used := b_used ?b0 + tlvs_size tlvs\<rparr>)"
    by (rule add_tlvs_ok) (use sz in \<open>simp_all add: REQ_MAX_def REQ_HDR_SZ_def\<close>)
  show ?thesis
    using add sz
    by (simp add: build_req_def proto_req_init_def proto_req_finish_def check_cap_def
        Let_def REQ_MAX_def REQ_HDR_SZ_def mk_request_def)
qed

section \<open>Properties: document store\<close>

lemma int_cast_small: "n < 2 ^ 31 \<Longrightarrow> int_cast n = int n"
  unfolding int_cast_def
  by (simp add: signed_of_nat signed_take_bit_int_eq_self)

lemma end_off_div: "end_off st div DOC_SZ = length st"
  by (simp add: end_off_def DOC_SZ_def)

lemma in_range_iff: "0 \<le> key \<Longrightarrow> get_offset key + DOC_SZ > end_off st \<longleftrightarrow> nat key \<ge> length st"
  by (auto simp: get_offset_def end_off_def DOC_SZ_def)

lemma add_docs_keys:
  "length st + length ds \<le> 2 ^ 31 \<Longrightarrow>
   fst (add_docs st ds) = map (\<lambda>i. int (length st + i)) [0 ..< length ds]"
proof (induction ds arbitrary: st)
  case Nil
  then show ?case by simp
next
  case (Cons d ds)
  have k: "int_cast (length st) = int (length st)"
    using Cons.prems by (intro int_cast_small) simp
  let ?st' = "st @ [d\<lparr>d_key := int (length st)\<rparr>]"
  have ih: "fst (add_docs ?st' ds) = map (\<lambda>i. int (length ?st' + i)) [0 ..< length ds]"
    by (rule Cons.IH) (use Cons.prems in simp)
  have step: "stg_add_doc st d = (int (length st), ?st')"
    by (simp add: stg_add_doc_def end_off_div k Let_def)
  have "fst (add_docs st (d # ds)) = int (length st) # fst (add_docs ?st' ds)"
    by (simp add: step split: prod.splits)
  also have "\<dots> = map (\<lambda>i. int (length st + i)) [0 ..< Suc (length ds)]"
    by (simp only: ih map_upt_Suc) simp
  finally show ?case by simp
qed

lemma del_doc_live:
  assumes "fst (stg_get_doc st k) = OS_OK"
  shows "stg_del_doc st k = (OS_OK, st[nat k := tomb])"
  using assms by (auto simp: stg_get_doc_def stg_del_doc_def Let_def split: if_splits)

lemma get_after_del_same:
  assumes "fst (stg_get_doc st k) = OS_OK"
  shows "fst (stg_get_doc (st[nat k := tomb]) k) = OS_ERROR"
proof -
  from assms have k0: "0 \<le> k" and lt: "nat k < length st"
    by (auto simp: stg_get_doc_def get_offset_def end_off_def DOC_SZ_def split: if_splits)
  have "d_key (st[nat k := tomb] ! nat k) = -1"
    using lt by (simp add: tomb_def)
  then show ?thesis
    using k0 by (auto simp: stg_get_doc_def Let_def)
qed

lemma get_after_del_other:
  assumes "k' \<noteq> k" "0 \<le> k"
  shows "stg_get_doc (st[nat k := tomb]) k' = stg_get_doc st k'"
  using assms
  by (auto simp: stg_get_doc_def Let_def end_off_def  split: if_splits)

text \<open>
  Claim C7 (store key assignment). Starting from an empty store, successive Add
  operations return the keys 0, 1, 2, ... (as long as the key is representable in the
  C \<open>int\<close>, that is for up to \<open>2^31\<close> records); and for every live key \<open>k\<close> (one that
  Get finds), Delete succeeds, after which Get of \<open>k\<close> fails, Get of every other key
  returns exactly what it returned before, and Total is unchanged.
\<close>

theorem store_keys_and_delete:
  "(length docs \<le> 2 ^ 31 \<longrightarrow> fst (add_docs [] docs) = map int [0 ..< length docs]) \<and>
   (fst (stg_get_doc st k) = OS_OK \<longrightarrow>
      (\<exists>st'. stg_del_doc st k = (OS_OK, st') \<and>
         fst (stg_get_doc st' k) = OS_ERROR \<and>
         (\<forall>k'. k' \<noteq> k \<longrightarrow> stg_get_doc st' k' = stg_get_doc st k') \<and>
         stg_total st' = stg_total st))"
proof (intro conjI impI)
  assume "length docs \<le> 2 ^ 31"
  then show "fst (add_docs [] docs) = map int [0 ..< length docs]"
    using add_docs_keys[of "[]" docs] by (simp add: map_idI)
next
  assume live: "fst (stg_get_doc st k) = OS_OK"
  then have k0: "0 \<le> k" by (auto simp: stg_get_doc_def split: if_splits)
  show "\<exists>st'. stg_del_doc st k = (OS_OK, st') \<and>
         fst (stg_get_doc st' k) = OS_ERROR \<and>
         (\<forall>k'. k' \<noteq> k \<longrightarrow> stg_get_doc st' k' = stg_get_doc st k') \<and>
         stg_total st' = stg_total st"
    using del_doc_live[OF live] get_after_del_same[OF live] get_after_del_other[OF _ k0]
    by (simp add: stg_total_def end_off_def)
qed

theorem store_keys_and_delete_witness:
  "length [doc_T, doc_T, doc_T] \<le> 2 ^ 31 \<and>
   fst (add_docs [] [doc_T, doc_T, doc_T]) = [0, 1, 2] \<and>
   fst (stg_get_doc (snd (add_docs [] [doc_T, doc_T, doc_T])) 1) = OS_OK \<and>
   (\<exists>st'. stg_del_doc (snd (add_docs [] [doc_T, doc_T, doc_T])) 1 = (OS_OK, st') \<and>
      fst (stg_get_doc st' 1) = OS_ERROR \<and>
      (\<forall>k'. k' \<noteq> 1 \<longrightarrow>
         stg_get_doc st' k' = stg_get_doc (snd (add_docs [] [doc_T, doc_T, doc_T])) k') \<and>
      stg_total st' = stg_total (snd (add_docs [] [doc_T, doc_T, doc_T])))"
proof -
  have a: "add_docs [] [doc_T, doc_T, doc_T] =
      ([0, 1, 2], [doc_T\<lparr>d_key := 0\<rparr>, doc_T\<lparr>d_key := 1\<rparr>, doc_T\<lparr>d_key := 2\<rparr>])"
    by (simp add: stg_add_doc_def end_off_def DOC_SZ_def int_cast_def Let_def)
  have g: "fst (stg_get_doc (snd (add_docs [] [doc_T, doc_T, doc_T])) 1) = OS_OK"
    unfolding a by (simp add: stg_get_doc_def end_off_def get_offset_def DOC_SZ_def Let_def)
  show ?thesis
    using g store_keys_and_delete [of "[doc_T, doc_T, doc_T]" "snd (add_docs [] [doc_T, doc_T, doc_T])" 1]
    unfolding a by simp
qed

section \<open>Properties: LRU cache\<close>




































section \<open>Evaluation on concrete inputs\<close>

lemmas proto_eval = proto_build_simple_rsp_def proto_rsp_init_def proto_add_tlv_def
  proto_rsp_finish_def check_cap_def tlv_hdr_def u8_byte_def u16_bytes_def c_str_def NUL_def
  RSP_MAX_def RSP_HDR_SZ_def TLV_HDR_SZ_def UINT16_MAX_def ARG_STR_def ARG_U32_def Let_def
  char_of_eq_iff

lemmas serve_eval = serve_one_def cmd_by_opcode_def cmd_table_def CMD_ROW_def
  OP_A_def OP_C_def OP_D_def OP_L_def OP_S_def OP_F_def OP_COUNT_def cache_hit_def
  spawn_nonblock_child_def dispatch_request_def dismantle_request_def dismantle_loop.simps
  proto_cursor_init_def proto_cursor_next_def proto_arg_first_str_def REQ_HDR_SZ_def
  proto_recv_rsp_def proto_send_rsp_def rsp_image_def txp_read_def rsp_of_bytes_def
  txp_reply_def TXP_MAX_def mk_request_def tlvs_size_def tlv_bytes_def byte_at_def
  bytes_u16_def byte_u8_def arg_decoders_def dec_u32_def dec_str_def

lemmas scan_eval = doc_count_keyword_def doc_contains_keyword_def read_loop.simps BUF_SZ_def
  kw_at_def end_of_byte_def NEWLINE_def NUL_def c_str_def

lemmas handler_eval = handlers_def handle_s_def kw_of_arg_def arg_at_def stg_total_def
  end_off_def DOC_SZ_def int_cast_def scan_parallel_def scan_workers_def workers_of_arg_def
  scan_key_def
  doc_key_contains_keyword_def doc_build_path_def docroot_get_def stg_get_doc_def
  get_offset_def list_step_def bmp_test_def bmp_set_def BITSET_BYTE_def BITSET_MASK_def
  show_int_def show_nat.simps

lemmas cache_eval = cache_new_def cache_put_def cache_get_def cache_keys_def move_front_def
  evict.simps

lemma doc_build_path_world_with:
  "doc_build_path (world_with content) 0 = (OS_OK, ''docs/f.txt'')"
  by (simp add: doc_build_path_def world_with_def docroot_get_def c_str_def NUL_def
      stg_get_doc_def get_offset_def end_off_def DOC_SZ_def doc_T_def Let_def)

text \<open>
  Claim C1 (a document containing the term is never reported as a miss) fails on the
  code: after a mismatch the matcher restarts from the current byte only, so the term
  \<open>aab\<close> is not found in the content \<open>aaab\<close>, which contains it. The per-document scan
  returns 0 and the bit of the document stays clear.
\<close>

theorem contained_term_missed:
  "sublist ''aab'' ''aaab'' \<and>
   doc_key_contains_keyword (world_with ''aaab'') 0 ''aab'' = 0 \<and>
   \<not> bmp_test (snd (scan_parallel (world_with ''aaab'') ''aab'' 1 1 [0])) 0"
proof -
  have s: "sublist ''aab'' ''aaab''"
    unfolding sublist_def by (rule exI[of _ "''a''"], rule exI[of _ "[]"]) simp
  have k: "doc_key_contains_keyword (world_with ''aaab'') 0 ''aab'' = 0"
    by (simp add: doc_key_contains_keyword_def doc_build_path_world_with)
       (simp add: world_with_def scan_eval)
  have "snd (scan_parallel (world_with ''aaab'') ''aab'' 1 1 [0]) = [0]"
    using k
    by (simp add: scan_parallel_def scan_workers_def Let_def scan_key_def world_with_def)
  then show ?thesis using s k by (simp add: bmp_test_def BITSET_BYTE_def)
qed

theorem contained_term_missed_witness:
  "doc_key_contains_keyword (world_with ''aaab'') 0 ''aab'' \<noteq> 1"
  using contained_term_missed by simp

text \<open>
  Claim C4 (a matched final line without a newline is counted whatever byte the file
  ends on) fails on the code: the test at end of file also asks for \<open>match > 0\<close>, and
  \<open>match\<close> is 0 right after a completed match. A file that is exactly \<open>apple\<close> counts 0
  lines for the term \<open>apple\<close>; with a final newline it counts 1.
\<close>

theorem final_line_uncounted:
  "doc_count_keyword (w_files (world_with ''apple'')) ''docs/f.txt'' ''apple'' False
     = (OS_OK, 0) \<and>
   doc_count_keyword (w_files (world_with ''apple\<newline>'')) ''docs/f.txt'' ''apple'' False
     = (OS_OK, 1)"
  by (simp add: world_with_def scan_eval)

theorem final_line_uncounted_witness:
  "snd (doc_count_keyword (w_files (world_with ''apple'')) ''docs/f.txt'' ''apple'' False) = 0"
  using final_line_uncounted by simp

lemma load_loop_numeral:
  "load_loop (numeral n) data c = load_loop (Suc (pred_numeral n)) data c"
  by (simp only: numeral_eq_Suc)

lemma rsp_hit0: "proto_build_simple_rsp OP_S ''[0]'' =
   \<lparr>rsp_len = 10, rsp_opcode = 4, rsp_status = 0,
    rsp_payload = [CHR 0x01, CHR 0x03, CHR 0x00, CHR ''['', CHR ''0'', CHR '']'']\<rparr>"
  by (simp add: proto_eval OP_S_def)

lemma rsp_nohit: "proto_build_simple_rsp OP_S ''[]'' =
   \<lparr>rsp_len = 9, rsp_opcode = 4, rsp_status = 0,
    rsp_payload = [CHR 0x01, CHR 0x02, CHR 0x00, CHR ''['', CHR '']'']\<rparr>"
  by (simp add: proto_eval OP_S_def)

lemma dump_cache_ab: "dump_to_disk cache_ab =
  [CHR 0x02, CHR 0x00, CHR 0x00, CHR 0x00,
   CHR 0x01, CHR 0x00, CHR ''a'', CHR 0x0A, CHR 0x00,
   CHR 0x0A, CHR 0x00, CHR 0x04, CHR 0x00, CHR 0x01, CHR 0x03, CHR 0x00,
   CHR ''['', CHR ''0'', CHR '']'',
   CHR 0x01, CHR 0x00, CHR ''b'', CHR 0x09, CHR 0x00,
   CHR 0x09, CHR 0x00, CHR 0x04, CHR 0x00, CHR 0x01, CHR 0x02, CHR 0x00,
   CHR ''['', CHR '']'']"
  by (simp add: cache_ab_def rsp_hit0 rsp_nohit dump_to_disk_def entry_bytes_def u32_bytes_def
      u16_bytes_def rsp_image_def u8_byte_def RSP_HDR_SZ_def Let_def char_of_eq_iff)

text \<open>
  Claim C3 (the record that comes first in the persistence file is at the front of the
  list after loading) fails on the code: \<open>load_from_disk\<close> links every record it reads
  at the head, so the list is the file in reverse. The file that \<open>dump_to_disk\<close> writes
  for the cache \<open>a, b\<close> (most recent first) loads as \<open>b, a\<close>.
\<close>

theorem reload_reverses_order:
  "cache_keys cache_ab = [''a'', ''b''] \<and>
   (\<exists>c. cache_init None 2 (Some (dump_to_disk cache_ab)) = (OS_OK, Some c) \<and>
        cache_keys c = [''b'', ''a''])"
  unfolding dump_cache_ab
  by (simp add: cache_ab_def cache_keys_def cache_init_def load_from_disk_def txp_read_def
      bytes_u32_def bytes_u16_def byte_at_def load_loop_numeral MAX_KEY_LEN_def
      rsp_of_bytes_def RSP_SZ_def c_str_def NUL_def Let_def)

theorem reload_reverses_order_witness:
  "\<exists>c. cache_init None 2 (Some (dump_to_disk cache_ab)) = (OS_OK, Some c) \<and>
       hd (cache_keys c) = ''b'' \<and> hd (cache_keys cache_ab) = ''a''"
  using reload_reverses_order by auto

text \<open>
  Claim C10 (every key in the cache is a non-empty string) fails on the code: the
  first-string extraction checks the wire length, but the cache reads the key as a C
  string. A search whose term is the single byte 0 passes the extraction (length 1)
  and is cached under the empty key.
\<close>

theorem empty_key_cached:
  "proto_arg_first_str (mk_request OP_S 1234 [(ARG_STR, [NUL])]) 256 = (OS_OK, [NUL]) \<and>
   cache_keys (sv_cache (fst (serve_one rsp_junk
       \<lparr>sv_world = world_with ''x'', sv_cache = cache_new 2\<rparr>
       (mk_request OP_S 1234 [(ARG_STR, [NUL])])))) = [[]]"
  by (simp add: serve_eval proto_eval handler_eval cache_eval world_with_def doc_T_def scan_eval)

theorem empty_key_cached_witness:
  "[] \<in> set (cache_keys (sv_cache (fst (serve_one rsp_junk
       \<lparr>sv_world = world_with ''x'', sv_cache = cache_new 2\<rparr>
       (mk_request OP_S 1234 [(ARG_STR, [NUL])])))))"
  using empty_key_cached by simp

text \<open>
  Claim C2 as stated (a non-blocking request that fails validation gets no reply) fails
  on the code: validation runs inside the worker child, whose error path builds the
  \<open>ERR\<close> frame, and the parent forwards it. A C request without its mandatory argument
  is answered.
\<close>

theorem invalid_request_reply_counterexample:
  "fst (dismantle_request (mk_request OP_C 1234 []) (cmd_table ! 1) [ArgU32 0]) = OS_ERROR \<and>
   serve_one rsp_junk \<lparr>sv_world = world_empty, sv_cache = cache_new 2\<rparr>
      (mk_request OP_C 1234 [])
   = (\<lparr>sv_world = world_empty, sv_cache = cache_new 2\<rparr>,
      Some (1234, [CHR 0x0A, CHR 0x00, CHR 0x01, CHR 0x00,
                   CHR 0x01, CHR 0x03, CHR 0x00, CHR ''E'', CHR ''R'', CHR ''R'']),
      False)"
  by (simp add: serve_eval proto_eval)


section \<open>Properties: requests that fail validation\<close>

lemma cmd_by_opcode_opcode:
  assumes "cmd_by_opcode op = Some cmd"
  shows "opcode cmd = op"
proof -
  from assms have lt: "unat op < 6" and c: "cmd = cmd_table ! unat op"
    by (auto simp: cmd_by_opcode_def OP_COUNT_def split: if_splits)
  from lt have "unat op = 0 \<or> unat op = 1 \<or> unat op = 2 \<or> unat op = 3 \<or> unat op = 4 \<or> unat op = 5"
    by arith
  then have "op = 0 \<or> op = 1 \<or> op = 2 \<or> op = 3 \<or> op = 4 \<or> op = 5"
    by (auto simp: word_unat_eq_iff)
  then show ?thesis
    using c by (auto simp: cmd_table_def CMD_ROW_def OP_A_def OP_C_def OP_D_def OP_L_def OP_S_def OP_F_def)
qed

lemma recv_send_ERR:
  "proto_recv_rsp (proto_send_rsp (proto_build_simple_rsp op ''ERR''))
     = (OS_OK, Some (proto_build_simple_rsp op ''ERR''))"
proof -
  have r: "proto_build_simple_rsp op ''ERR'' =
     \<lparr>rsp_len = 10, rsp_opcode = op, rsp_status = 0,
      rsp_payload = [CHR 0x01, CHR 0x03, CHR 0x00, CHR ''E'', CHR ''R'', CHR ''R'']\<rparr>"
    by (simp add: proto_eval)
  have b: "byte_u8 (u8_byte op) = op" by (rule byte_u8_u8_byte)
  have z: "byte_u8 (u8_byte 0) = 0" by (rule byte_u8_u8_byte)
  show ?thesis
    unfolding r using b z
    by (simp add: proto_recv_rsp_def proto_send_rsp_def rsp_image_def txp_read_def
        rsp_of_bytes_def u16_bytes_def bytes_u16_def byte_at_def RSP_HDR_SZ_def RSP_MAX_def
        char_of_eq_iff Let_def)
qed

lemma rsp_len_ERR: "unat (rsp_len (proto_build_simple_rsp op ''ERR'')) = 10"
  by (simp add: proto_eval)

text \<open>
  Claim C2, as amended. For every received request of a non-blocking command (opcodes
  C, L, S) whose payload fails schema validation, and that is not answered from the
  cache, the server does reply: the worker child builds the frame with the request's
  opcode, status 0 and the single string TLV \<open>ERR\<close>, and the parent sends it to the
  client (whose pid is positive); the serve loop continues and the store and the rest of
  the environment are unchanged.
\<close>

theorem invalid_nonblocking_request_answered:
  assumes "cmd_by_opcode (req_opcode req) = Some cmd"
    and "\<not> blocking cmd"
    and "fst (dismantle_request req cmd (replicate (argc_max cmd) (ArgU32 0))) = OS_ERROR"
    and "cache_hit sv req = None"
    and "0 < req_pid req"
  shows "\<exists>sv'. serve_one junk sv req =
           (sv', Some (req_pid req,
                       proto_send_rsp (proto_build_simple_rsp (req_opcode req) ''ERR'')),
            False) \<and>
         sv_world sv' = sv_world sv"
proof -
  let ?err = "proto_build_simple_rsp (req_opcode req) ''ERR''"
  have op: "opcode cmd = req_opcode req" by (rule cmd_by_opcode_opcode[OF assms(1)])
  have d: "dispatch_request (sv_world sv) req cmd junk = (OS_ERROR, junk, sv_world sv)"
    using assms(3) by (auto simp: dispatch_request_def split: prod.splits rc.splits)
  have child: "spawn_nonblock_child (sv_world sv) req cmd junk = proto_send_rsp ?err"
    by (simp add: spawn_nonblock_child_def d op)
  have reply: "txp_reply (req_pid req) ?err (unat (rsp_len ?err)) =
      Some (req_pid req, proto_send_rsp ?err)"
    using assms(5) by (simp add: txp_reply_def rsp_len_ERR proto_send_rsp_def TXP_MAX_def RSP_MAX_def)
  show ?thesis
    using assms(1,2,4) reply
    by (simp add: serve_one_def child recv_send_ERR Let_def del: One_nat_def)
qed

theorem invalid_nonblocking_request_answered_witness:
  "cmd_by_opcode (req_opcode (mk_request OP_C 1234 [])) = Some (cmd_table ! 1) \<and>
   \<not> blocking (cmd_table ! 1) \<and>
   fst (dismantle_request (mk_request OP_C 1234 []) (cmd_table ! 1)
          (replicate (argc_max (cmd_table ! 1)) (ArgU32 0))) = OS_ERROR \<and>
   cache_hit \<lparr>sv_world = world_empty, sv_cache = cache_new 2\<rparr> (mk_request OP_C 1234 []) = None \<and>
   0 < req_pid (mk_request OP_C 1234 []) \<and>
   (\<exists>sv'. serve_one rsp_junk \<lparr>sv_world = world_empty, sv_cache = cache_new 2\<rparr>
             (mk_request OP_C 1234 []) =
           (sv', Some (req_pid (mk_request OP_C 1234 []),
                       proto_send_rsp
                         (proto_build_simple_rsp (req_opcode (mk_request OP_C 1234 [])) ''ERR'')),
            False) \<and>
         sv_world sv' = sv_world \<lparr>sv_world = world_empty, sv_cache = cache_new 2\<rparr>)"
proof -
  let ?req = "mk_request OP_C 1234 []"
  let ?sv = "\<lparr>sv_world = world_empty, sv_cache = cache_new 2\<rparr>"
  have 1: "cmd_by_opcode (req_opcode ?req) = Some (cmd_table ! 1)"
    by (simp add: mk_request_def cmd_by_opcode_def OP_C_def OP_COUNT_def)
  have 2: "\<not> blocking (cmd_table ! 1)"
    by (simp add: cmd_table_def CMD_ROW_def)
  have 3: "fst (dismantle_request ?req (cmd_table ! 1)
                 (replicate (argc_max (cmd_table ! 1)) (ArgU32 0))) = OS_ERROR"
    by (simp add: serve_eval proto_eval)
  have 4: "cache_hit ?sv ?req = None"
    by (simp add: cache_hit_def mk_request_def OP_C_def OP_S_def)
  have 5: "0 < req_pid ?req"
    by (simp add: mk_request_def)
  show ?thesis
    using 1 2 3 4 5 invalid_nonblocking_request_answered [OF 1 2 3 4 5, of rsp_junk]
    by blast
qed

section \<open>Properties: term truncation in the handlers\<close>

lemma kw_of_arg_take: "kw_of_arg (ArgStr (take 255 t)) = kw_of_arg (ArgStr t)"
  by (auto simp: kw_of_arg_def Let_def min_def)

lemma handle_s_take:
  "handle_s w (ArgStr (take 255 t) # rest) r = handle_s w (ArgStr t # rest) r"
proof -
  have 0: "arg_at (ArgStr (take 255 t) # rest) 0 = ArgStr (take 255 t)"
    "arg_at (ArgStr t # rest) 0 = ArgStr t"
    by (simp_all add: arg_at_def)
  have 1: "arg_at (ArgStr (take 255 t) # rest) 1 = arg_at (ArgStr t # rest) 1"
    by (simp add: arg_at_def)
  show ?thesis
    unfolding handle_s_def 0 1 kw_of_arg_take ..
qed

lemma handle_l_take:
  "handle_l w (k # ArgStr (take 255 t) # rest) r = handle_l w (k # ArgStr t # rest) r"
proof -
  have 0: "arg_at (k # ArgStr (take 255 t) # rest) 0 = arg_at (k # ArgStr t # rest) 0"
    by (simp add: arg_at_def)
  have 1: "arg_at (k # ArgStr (take 255 t) # rest) 1 = ArgStr (take 255 t)"
    "arg_at (k # ArgStr t # rest) 1 = ArgStr t"
    by (simp_all add: arg_at_def)
  show ?thesis
    unfolding handle_l_def 0 1 kw_of_arg_take ..
qed

lemma unat_u16: "n < 65536 \<Longrightarrow> unat (word_of_nat n :: 16 word) = n"
  by (subst unat_of_nat) simp

lemma dispatch_s_term:
  assumes "length t \<le> 65525"
  shows "dispatch_request w (mk_request OP_S pid [(ARG_STR, t)]) (cmd_table ! 4) r
         = handle_s w [ArgStr t, ArgU32 0] r"
proof -
  let ?buf = "tlv_hdr ARG_STR (length t) @ t"
  have len: "length t \<le> 65535" using assms by simp
  have row: "cmd_table ! 4 = CMD_ROW ''-s'' 1 OP_S False [ARG_STR, ARG_U32]"
    by (simp add: cmd_table_def)
  have rl: "unat (word_of_nat (REQ_HDR_SZ + tlvs_size [(ARG_STR, t)]) :: 16 word) - REQ_HDR_SZ
      = 3 + length t"
  proof -
    have "unat (word_of_nat (10 + length t) :: 16 word) = 10 + length t"
      using assms by (intro unat_u16) simp
    then show ?thesis by (simp add: REQ_HDR_SZ_def tlvs_size_def)
  qed
  have n1: "proto_cursor_next \<lparr>c_buf = [] @ ?buf @ [], c_cur = length ([] :: string),
               c_end = length ([] :: string) + (3 + length t) + length ([] :: string)\<rparr>
      = Next_AGAIN ARG_STR t (word_of_nat (length t))
          \<lparr>c_buf = [] @ ?buf @ [], c_cur = length ([] :: string) + (3 + length t),
           c_end = length ([] :: string) + (3 + length t) + length ([] :: string)\<rparr>"
    using cursor_next_tlv[OF len, of "[]" ARG_STR "[]"] by simp
  have n2: "proto_cursor_next \<lparr>c_buf = ?buf, c_cur = 3 + length t, c_end = 3 + length t\<rparr> = Next_OK"
    by (simp add: proto_cursor_next_def TLV_HDR_SZ_def)
  have u: "unat (word_of_nat (length t) :: 16 word) = length t"
    using len by (simp add: unat_u16)
  have "dismantle_request (mk_request OP_S pid [(ARG_STR, t)]) (cmd_table ! 4)
          (replicate (argc_max (cmd_table ! 4)) (ArgU32 0)) = (OS_OK, [ArgStr t, ArgU32 0])"
    unfolding dismantle_request_def mk_request_def row
    using n1 n2 u rl
    by (simp add: dismantle_loop.simps proto_cursor_init_def tlv_bytes_def CMD_ROW_def
        arg_decoders_def dec_str_def ARG_STR_def ARG_U32_def)
  then show ?thesis
    by (simp add: dispatch_request_def row CMD_ROW_def handlers_def OP_A_def OP_C_def OP_D_def
        OP_L_def OP_S_def)
qed

lemma split4: fixes u :: nat shows
  "u mod 256 + 256 * (u div 256 mod 256) + 65536 * (u div 65536 mod 256)
        + 16777216 * (u div 16777216) = u"
proof -
  have a: "u div 65536 = u div 256 div 256" by (simp add: div_mult2_eq)
  have b: "u div 16777216 = u div 256 div 256 div 256" by (simp add: div_mult2_eq)
  define x where "x = u div 256"
  define y where "y = x div 256"
  have 1: "u = u mod 256 + 256 * x" by (simp add: x_def)
  have 2: "x = x mod 256 + 256 * y" by (simp add: y_def)
  have 3: "y = y mod 256 + 256 * (y div 256)" by simp
  have "u mod 256 + 256 * (x mod 256) + 65536 * (y mod 256) + 16777216 * (y div 256) = u"
    using 1 2 3 by linarith
  then show ?thesis by (simp add: a b x_def y_def)
qed

lemma bytes_u32_u32_bytes: "bytes_u32 (u32_bytes k) = k"
proof -
  let ?u = "unat k"
  have lt: "?u < 4294967296" using unsigned_less[of k, where ?'a = nat] by simp
  then have d: "?u div 16777216 < 256" by simp
  have "bytes_u32 (u32_bytes k) = word_of_nat
     (?u mod 256 + 256 * (?u div 256 mod 256) + 65536 * (?u div 65536 mod 256)
        + 16777216 * (?u div 16777216))"
    using d by (simp add: bytes_u32_def u32_bytes_def byte_at_def)
  then show ?thesis by (simp only: split4 of_nat_unat) simp
qed

lemma dispatch_l_term:
  assumes "length t \<le> 65518"
  shows "dispatch_request w (mk_request OP_L pid [(ARG_U32, u32_bytes k), (ARG_STR, t)])
           (cmd_table ! 3) r
         = handle_l w [ArgU32 k, ArgStr t] r"
proof -
  let ?kb = "u32_bytes k"
  let ?tlvs = "[(ARG_U32, ?kb), (ARG_STR, t)]"
  let ?buf = "tlv_bytes ?tlvs"
  let ?E = "10 + length t"
  have lk: "length ?kb = 4" by (simp add: u32_bytes_def)
  have len: "length t \<le> 65535" using assms by simp
  have row: "cmd_table ! 3 = CMD_ROW ''-l'' 2 OP_L False [ARG_U32, ARG_STR]"
    by (simp add: cmd_table_def)
  have rl: "unat (req_len (mk_request OP_L pid ?tlvs)) - REQ_HDR_SZ = ?E"
  proof -
    have "unat (word_of_nat (17 + length t) :: 16 word) = 17 + length t"
      using assms by (intro unat_u16) simp
    then show ?thesis by (simp add: mk_request_def REQ_HDR_SZ_def tlvs_size_def lk)
  qed
  have pl: "req_payload (mk_request OP_L pid ?tlvs) = ?buf"
    by (simp add: mk_request_def)
  have n1: "proto_cursor_next \<lparr>c_buf = ?buf, c_cur = 0, c_end = ?E\<rparr>
      = Next_AGAIN ARG_U32 ?kb 4 \<lparr>c_buf = ?buf, c_cur = 7, c_end = ?E\<rparr>"
    using cursor_next_tlv[of ?kb "[]" ARG_U32 "tlv_hdr ARG_STR (length t) @ t"]
    by (simp add: lk tlv_bytes_def length_tlv_hdr)
  have n2: "proto_cursor_next \<lparr>c_buf = ?buf, c_cur = 7, c_end = ?E\<rparr>
      = Next_AGAIN ARG_STR t (word_of_nat (length t)) \<lparr>c_buf = ?buf, c_cur = ?E, c_end = ?E\<rparr>"
    using cursor_next_tlv[OF len, of "tlv_hdr ARG_U32 (length ?kb) @ ?kb" ARG_STR "[]"]
    by (simp add: lk tlv_bytes_def length_tlv_hdr)
  have u: "unat (word_of_nat (length t) :: 16 word) = length t"
    using len by (simp add: unat_u16)
  have d1: "dec_u32 ?kb 4 = (OS_OK, Some (ArgU32 k))"
    by (simp add: dec_u32_def bytes_u32_u32_bytes)
  have d2: "dec_str t (word_of_nat (length t)) = (OS_OK, Some (ArgStr t))"
    by (simp add: dec_str_def u)
  let ?row = "CMD_ROW ''-l'' 2 OP_L False [ARG_U32, ARG_STR]"
  have r: "argc_max ?row = 2" "argc_min ?row = 2" "types ?row = [ARG_U32, ARG_STR]"
    by (simp_all add: CMD_ROW_def)
  have dc: "arg_decoders ARG_U32 = Some dec_u32" "arg_decoders ARG_STR = Some dec_str"
    by (simp_all add: arg_decoders_def ARG_U32_def ARG_STR_def)
  have s2: "dismantle_loop ?row (Suc (Suc 0)) \<lparr>c_buf = ?buf, c_cur = ?E, c_end = ?E\<rparr> [ArgU32 k, ArgStr t]
      = (OS_OK, [ArgU32 k, ArgStr t])"
    by (subst dismantle_loop.simps) (simp add: r)
  have s1: "dismantle_loop ?row (Suc 0) \<lparr>c_buf = ?buf, c_cur = 7, c_end = ?E\<rparr> [ArgU32 k, ArgU32 0]
      = (OS_OK, [ArgU32 k, ArgStr t])"
    by (subst dismantle_loop.simps) (simp add: r n2 dc d2 s2)
  have s0: "dismantle_loop ?row 0 \<lparr>c_buf = ?buf, c_cur = 0, c_end = ?E\<rparr> [ArgU32 0, ArgU32 0]
      = (OS_OK, [ArgU32 k, ArgStr t])"
    by (subst dismantle_loop.simps) (simp add: r n1 dc d1 s1)
  have "dismantle_request (mk_request OP_L pid ?tlvs) (cmd_table ! 3)
          (replicate (argc_max (cmd_table ! 3)) (ArgU32 0)) = (OS_OK, [ArgU32 k, ArgStr t])"
    unfolding dismantle_request_def rl pl row proto_cursor_init_def r
    using s0 by (simp add: numeral_2_eq_2 del: dismantle_loop.simps)
  then show ?thesis
    by (simp add: dispatch_request_def row CMD_ROW_def handlers_def OP_A_def OP_C_def OP_D_def
        OP_L_def OP_S_def)
qed

text \<open>
  Claim C9 (term truncation). The search (S) and line-count (L) handlers scan for the
  first 255 bytes of the term: for every term, the handler's result is the result for
  the term's 255-byte prefix. The wire format and the dispatcher accept the longer term
  without an error: a request whose string argument has any length the frame can hold
  passes validation and is handled as the request with the prefix.
\<close>

theorem handlers_truncate_term:
  "handle_s w (ArgStr t # rest) r = handle_s w (ArgStr (take 255 t) # rest) r \<and>
   handle_l w (k # ArgStr t # rest) r = handle_l w (k # ArgStr (take 255 t) # rest) r \<and>
   (length t \<le> 65525 \<longrightarrow>
      dispatch_request w (mk_request OP_S pid [(ARG_STR, t)]) (cmd_table ! 4) r
        = handle_s w [ArgStr (take 255 t), ArgU32 0] r) \<and>
   (length t \<le> 65518 \<longrightarrow>
      dispatch_request w (mk_request OP_L pid [(ARG_U32, u32_bytes n), (ARG_STR, t)])
          (cmd_table ! 3) r
        = handle_l w [ArgU32 n, ArgStr (take 255 t)] r)"
proof (intro conjI impI)
  show "handle_s w (ArgStr t # rest) r = handle_s w (ArgStr (take 255 t) # rest) r"
    by (rule handle_s_take[symmetric])
  show "handle_l w (k # ArgStr t # rest) r = handle_l w (k # ArgStr (take 255 t) # rest) r"
    by (rule handle_l_take[symmetric])
next
  assume "length t \<le> 65525"
  then have "dispatch_request w (mk_request OP_S pid [(ARG_STR, t)]) (cmd_table ! 4) r
      = handle_s w [ArgStr t, ArgU32 0] r"
    by (rule dispatch_s_term)
  also have "\<dots> = handle_s w [ArgStr (take 255 t), ArgU32 0] r"
    by (rule handle_s_take[symmetric])
  finally show "dispatch_request w (mk_request OP_S pid [(ARG_STR, t)]) (cmd_table ! 4) r
      = handle_s w [ArgStr (take 255 t), ArgU32 0] r" .
next
  assume "length t \<le> 65518"
  then have "dispatch_request w (mk_request OP_L pid [(ARG_U32, u32_bytes n), (ARG_STR, t)])
          (cmd_table ! 3) r = handle_l w [ArgU32 n, ArgStr t] r"
    by (rule dispatch_l_term)
  also have "\<dots> = handle_l w [ArgU32 n, ArgStr (take 255 t)] r"
    by (rule handle_l_take[symmetric])
  finally show "dispatch_request w (mk_request OP_L pid [(ARG_U32, u32_bytes n), (ARG_STR, t)])
          (cmd_table ! 3) r = handle_l w [ArgU32 n, ArgStr (take 255 t)] r" .
qed

theorem handlers_truncate_term_witness:
  "length (replicate 300 CHR ''a'') \<le> 65525 \<and>
   length (replicate 300 CHR ''a'') \<le> 65518 \<and>
   dispatch_request (world_with ''aaa'')
       (mk_request OP_S 1234 [(ARG_STR, replicate 300 CHR ''a'')]) (cmd_table ! 4) rsp_junk
     = handle_s (world_with ''aaa'') [ArgStr (take 255 (replicate 300 CHR ''a'')), ArgU32 0]
         rsp_junk \<and>
   dispatch_request (world_with ''aaa'')
       (mk_request OP_L 1234 [(ARG_U32, u32_bytes 0), (ARG_STR, replicate 300 CHR ''a'')])
       (cmd_table ! 3) rsp_junk
     = handle_l (world_with ''aaa'') [ArgU32 0, ArgStr (take 255 (replicate 300 CHR ''a''))]
         rsp_junk"
proof -
  have 1: "length (replicate 300 CHR ''a'') \<le> 65525" by simp
  have 2: "length (replicate 300 CHR ''a'') \<le> 65518" by simp
  show ?thesis
    using 1 2
      handlers_truncate_term [of "world_with ''aaa''" "replicate 300 CHR ''a''" "[]" rsp_junk
        "ArgU32 0" 1234 0]
    by blast
qed

section \<open>Properties: the search reply\<close>

















lemma scan_workers_one:
  assumes "0 < tot" "0 < w_cpus w" "workers \<le> 1 \<or> tot = 1"
  shows "scan_workers w tot workers = 1"
  using assms by (auto simp: scan_workers_def Let_def)






end
